theory Spec2Isabelle
  imports Complex_Main
begin

section \<open>Data model\<close>

text \<open>
  The development follows the current \<open>RedditService\<close> (the axios-based class with the
  cron jobs) and the current \<open>DatabaseService\<close> (the one with \<open>updatePost\<close> and
  \<open>createScrapingLog\<close>).  A JavaScript error object is kept as its \<open>code\<close> (absent on a
  plain \<open>Error\<close>) and its \<open>message\<close>.
\<close>

datatype error = Error (err_code: "string option") (err_message: string)

datatype timeframe = Hour | Day | Week | Month | Year | AllTime

text \<open>
  The outbound request of each method, kept as the parameters its URL is built from:
  \<open>/r/<name>/hot.json?limit=\<close>, \<open>/r/<name>/top.json?t=&limit=\<close>,
  \<open>/r/<name>/new.json?limit=\<close> and \<open>/r/<name>/search.json?q=&restrict_sr=1&limit=&sort=relevance\<close>.
\<close>

datatype request =
    Hot string nat
  | Top string timeframe nat
  | New string nat
  | Search string string nat

datatype event = Delay nat | HttpGet request

datatype db_op = SelectPost | InsertPost | UpdatePost | UpdateSubreddit | InsertLog

text \<open>
  A property that an object may lack (\<open>undefined\<close> when read), carry as \<open>null\<close>, or
  carry with a value.  The three are kept apart where the code treats them differently:
  a request body drops a property whose value is \<open>undefined\<close> and sends \<open>null\<close>.
\<close>

datatype 'a property = Missing | Null | Given 'a

text \<open>
  \<open>item.data\<close> of one child of a listing.  The fields that \<open>formatPostData\<close> guards with
  \<open>||\<close>, and the ones Reddit may leave out or send as \<open>null\<close>, are optional;
  \<open>upvote_ratio\<close>, which \<open>updatePost\<close> writes unguarded, keeps \<open>undefined\<close> and
  \<open>null\<close> apart.  The fields \<open>id\<close>, \<open>title\<close>, \<open>subreddit\<close>, \<open>score\<close>, \<open>url\<close>,
  \<open>created_utc\<close>, \<open>num_comments\<close> and \<open>permalink\<close> are taken to be present with a
  value of their type, as every child of a Reddit listing has them.
\<close>

record raw_post =
  raw_id :: string
  raw_title :: string
  raw_author :: "string option"
  raw_subreddit :: string
  raw_score :: int
  raw_upvote_ratio :: "rat property"
  raw_url :: string
  raw_created_utc :: int
  raw_num_comments :: int
  raw_selftext :: "string option"
  raw_permalink :: string
  raw_thumbnail :: "string option"
  raw_is_video :: "bool option"
  raw_domain :: "string option"
  raw_link_flair_text :: "string option"

text \<open>The object literal that \<open>formatPostData\<close> returns.\<close>

record postData =
  pd_id :: string
  pd_title :: string
  pd_author :: string
  pd_subreddit :: string
  pd_score :: int
  pd_upvote_ratio :: "rat property"
  pd_url :: string
  pd_created_utc :: int
  pd_num_comments :: int
  pd_selftext :: string
  pd_permalink :: string
  pd_thumbnail :: "string option"
  pd_is_video :: bool
  pd_domain :: "string option"
  pd_link_flair_text :: "string option"

text \<open>
  A row of table \<open>reddit_posts\<close>, with the columns the two services name; \<open>None\<close>
  is SQL \<open>NULL\<close>.  \<open>created_utc\<close> is the \<open>Date\<close> built from
  \<open>created_utc * 1000\<close>, in milliseconds; \<open>last_updated_at\<close> is not supplied by the
  insert and stays empty until the first update.
\<close>

record post_row =
  post_id :: string
  title :: string
  author :: string
  subreddit :: string
  score :: int
  upvote_ratio :: "rat option"
  url :: string
  created_utc :: "int option"
  num_comments :: int
  selftext :: string
  permalink :: string
  thumbnail :: "string option"
  is_video :: bool
  domain :: "string option"
  link_flair_text :: "string option"
  last_updated_at :: "nat option"

text \<open>
  Modelled from the spec: a row of table \<open>post_snapshots\<close>, whose schema is not
  under \<open>src/\<close>.  The services only read this table (\<open>getPostSnapshots\<close> names its
  columns \<open>post_id\<close> and \<open>snapshot_at\<close>); the metric columns are the ones that
  section 3 of the specification lists for a Snapshot: itemId, score, numComments,
  upvoteRatio, capturedAt.
\<close>

record snapshot_row =
  snap_post_id :: string
  snap_score :: int
  snap_num_comments :: int
  snap_upvote_ratio :: "rat option"
  snapshot_at :: nat

record subreddit_row =
  sub_name :: string
  display_name :: string
  description :: "string option"
  is_active :: bool
  last_scraped_at :: "nat option"

record log_row =
  log_subreddit :: string
  scrape_type :: string
  status :: string
  posts_found :: nat
  posts_saved :: nat
  error_message :: "string option"
  duration_ms :: "nat option"
  completed_at :: nat

text \<open>The argument of \<open>createScrapingLog\<close>.\<close>

record logData =
  ld_subreddit :: string
  scrapeType :: string
  ld_status :: string
  postsFound :: nat
  postsSaved :: nat
  errorMessage :: "string option"
  durationMs :: "nat option"

text \<open>
  Interface \<open>ScrapeResult\<close>.  Each element of \<open>posts\<close> is the \<open>data\<close> array that
  \<open>savePost\<close> returned for one item.
\<close>

record ScrapeResult =
  res_subreddit :: string
  totalPosts :: nat
  newPosts :: nat
  posts :: "post_row list list"
  duration :: nat
  res_timeframe :: "timeframe option"
  res_error :: "string option"

record BatchResult =
  batch_total :: nat
  batch_timeframe :: "timeframe option"
  results :: "ScrapeResult list"

text \<open>One element of the array that \<open>searchPosts\<close> returns.\<close>

record search_hit =
  hit_id :: string
  hit_title :: string
  hit_author :: string
  hit_subreddit :: string
  hit_score :: int
  hit_url :: string
  hit_created_utc :: int
  hit_num_comments :: int
  hit_permalink :: string

text \<open>
  Everything outside the two services: the three tables the pipeline writes and the
  snapshot table it reads, the wall clock, the sequence of delays and requests issued so
  far, and the behaviour of the two external parties.  \<open>http_reply n\<close> is what the
  \<open>n\<close>-th \<open>axios.get\<close> yields: a raised error, or the \<open>children\<close> of a well-formed
  listing.  \<open>db_fault n op\<close> is the error, if any, with which the storage engine rejects
  the \<open>n\<close>-th call when that call is an \<open>op\<close>.
\<close>

record world =
  reddit_posts :: "post_row list"
  post_snapshots :: "snapshot_row list"
  scraping_logs :: "log_row list"
  subreddits :: "subreddit_row list"
  clock :: nat
  trace :: "event list"
  http_calls :: nat
  http_reply :: "nat \<Rightarrow> error + raw_post list"
  db_calls :: nat
  db_fault :: "nat \<Rightarrow> db_op \<Rightarrow> error option"

section \<open>The environment: timer, HTTP client, storage client\<close>

text \<open>
  \<open>axios\<close> and the Supabase client are libraries outside the repository.  Each of
  their calls is modelled by its effect on the tables of the world, and the world says
  which calls fail.

  \<open>delay(ms)\<close> is recorded in the trace and moves the clock by \<open>ms\<close>.  The time
  that requests and storage calls take is not modelled: \<open>Date.now()\<close> and
  \<open>new Date()\<close> read the clock as the delays left it.
\<close>

definition delay :: "nat \<Rightarrow> world \<Rightarrow> world" where
  "delay ms w = w\<lparr>clock := clock w + ms, trace := trace w @ [Delay ms]\<rparr>"

definition axios_get :: "request \<Rightarrow> world \<Rightarrow> (error + raw_post list) \<times> world" where
  "axios_get req w =
     (http_reply w (http_calls w),
      w\<lparr>http_calls := Suc (http_calls w), trace := trace w @ [HttpGet req]\<rparr>)"

text \<open>Every call to the storage client consumes one slot of the fault script.\<close>

definition db_call :: "db_op \<Rightarrow> world \<Rightarrow> error option \<times> world" where
  "db_call op w = (db_fault w (db_calls w) op, w\<lparr>db_calls := Suc (db_calls w)\<rparr>)"

definition PGRST116 :: error where
  "PGRST116 = Error (Some ''PGRST116'') ''JSON object requested, multiple (or no) rows returned''"

text \<open>
  \<open>from('reddit_posts').select('*').eq('post_id', postId).single()\<close>: the pair
  \<open>{data, error}\<close>.  The client answers with error code PGRST116 unless exactly one
  row matches.
\<close>

definition select_post_single ::
  "string \<Rightarrow> world \<Rightarrow> (post_row option \<times> error option) \<times> world" where
  "select_post_single postId w =
     (case db_call SelectPost w of
        (Some e, w1) \<Rightarrow> ((None, Some e), w1)
      | (None, w1) \<Rightarrow>
          (case filter (\<lambda>r. post_id r = postId) (reddit_posts w1) of
             [r] \<Rightarrow> ((Some r, None), w1)
           | _ \<Rightarrow> ((None, Some PGRST116), w1)))"

text \<open>\<open>from('reddit_posts').insert([row]).select()\<close>; a rejected insert writes nothing.\<close>

definition insert_post ::
  "post_row \<Rightarrow> world \<Rightarrow> (post_row list option \<times> error option) \<times> world" where
  "insert_post row w =
     (case db_call InsertPost w of
        (Some e, w1) \<Rightarrow> ((None, Some e), w1)
      | (None, w1) \<Rightarrow> ((Some [row], None), w1\<lparr>reddit_posts := reddit_posts w1 @ [row]\<rparr>))"

text \<open>
  Modelled from the spec: what the store does with table \<open>post_snapshots\<close> when a row
  of \<open>reddit_posts\<close> is updated.  The schema of the store, and whatever it attaches to
  an update, is not under \<open>src/\<close>: no method of \<open>DatabaseService\<close> writes
  \<open>post_snapshots\<close>, \<open>getPostSnapshots\<close> reads it, and \<open>savePost\<close> announces the
  update as ``Update existing post and create snapshot''.  By sections 3, 4.1 and 4.2 of
  the specification an update of an Item appends one Snapshot of the updated metrics
  (score, numComments, upvoteRatio), captured at the time of the update, and a create
  appends none.

  The rest is \<open>from('reddit_posts').update(values).eq('post_id', postId).select()\<close>:
  the matching rows get the values, and \<open>data\<close> is the array of the updated rows.
\<close>

definition update_posts_eq ::
  "(post_row \<Rightarrow> post_row) \<Rightarrow> string \<Rightarrow> world \<Rightarrow>
     (post_row list option \<times> error option) \<times> world" where
  "update_posts_eq values postId w =
     (case db_call UpdatePost w of
        (Some e, w1) \<Rightarrow> ((None, Some e), w1)
      | (None, w1) \<Rightarrow>
          (let updated = map values (filter (\<lambda>r. post_id r = postId) (reddit_posts w1))
           in ((Some updated, None),
               w1\<lparr>reddit_posts :=
                     map (\<lambda>r. if post_id r = postId then values r else r) (reddit_posts w1),
                   post_snapshots :=
                     post_snapshots w1 @
                     map (\<lambda>r. \<lparr>snap_post_id = post_id r,
                                snap_score = score r,
                                snap_num_comments = num_comments r,
                                snap_upvote_ratio = upvote_ratio r,
                                snapshot_at = clock w1\<rparr>) updated\<rparr>)))"

text \<open>\<open>from('subreddits').update(values).eq('name', subredditName).select()\<close>.\<close>

definition update_subreddits_eq ::
  "(subreddit_row \<Rightarrow> subreddit_row) \<Rightarrow> string \<Rightarrow> world \<Rightarrow>
     (subreddit_row list option \<times> error option) \<times> world" where
  "update_subreddits_eq values subredditName w =
     (case db_call UpdateSubreddit w of
        (Some e, w1) \<Rightarrow> ((None, Some e), w1)
      | (None, w1) \<Rightarrow>
          ((Some (map values (filter (\<lambda>r. sub_name r = subredditName) (subreddits w1))), None),
           w1\<lparr>subreddits :=
                 map (\<lambda>r. if sub_name r = subredditName then values r else r) (subreddits w1)\<rparr>))"

text \<open>\<open>from('scraping_logs').insert([row]).select()\<close>.\<close>

definition insert_log ::
  "log_row \<Rightarrow> world \<Rightarrow> (log_row list option \<times> error option) \<times> world" where
  "insert_log row w =
     (case db_call InsertLog w of
        (Some e, w1) \<Rightarrow> ((None, Some e), w1)
      | (None, w1) \<Rightarrow> ((Some [row], None), w1\<lparr>scraping_logs := scraping_logs w1 @ [row]\<rparr>))"

section \<open>DatabaseService\<close>

text \<open>
  \<open>getPostById\<close>: throws the client's error unless its code is PGRST116, and returns
  \<open>data\<close> otherwise.
\<close>

definition getPostById :: "string \<Rightarrow> world \<Rightarrow> (error + post_row option) \<times> world" where
  "getPostById postId w =
     (case select_post_single postId w of
        ((data, Some e), w1) \<Rightarrow>
          if err_code e \<noteq> Some ''PGRST116'' then (Inl e, w1) else (Inr data, w1)
      | ((data, None), w1) \<Rightarrow> (Inr data, w1))"

text \<open>
  \<open>updatePost\<close>: writes the five columns of its \<open>update\<close> call.  A
  \<open>postData.upvote_ratio\<close> that is \<open>undefined\<close> is dropped from the request body, so
  the column keeps its value; \<open>null\<close> is sent and stored.  The surrounding
  \<open>try\<close>/\<open>catch\<close> logs and rethrows.
\<close>

definition updatePost :: "postData \<Rightarrow> world \<Rightarrow> (error + post_row list option) \<times> world" where
  "updatePost pd w =
     (case update_posts_eq
             (\<lambda>r. r\<lparr>score := pd_score pd,
                     num_comments := pd_num_comments pd,
                     upvote_ratio := (case pd_upvote_ratio pd of
                                        Missing \<Rightarrow> upvote_ratio r
                                      | Null \<Rightarrow> None
                                      | Given v \<Rightarrow> Some v),
                     selftext := pd_selftext pd,
                     last_updated_at := Some (clock w)\<rparr>)
             (pd_id pd) w of
        ((data, Some e), w1) \<Rightarrow> (Inl e, w1)
      | ((data, None), w1) \<Rightarrow> (Inr data, w1))"

text \<open>
  \<open>new Date(ms)\<close> as the store receives it: a time value beyond 8.64e15 milliseconds
  on either side of the epoch is an invalid date, which is sent as \<open>null\<close>.
\<close>

definition js_date :: "int \<Rightarrow> int option" where
  "js_date ms = (if \<bar>ms\<bar> \<le> 8640000000000000 then Some ms else None)"

text \<open>
  The row that \<open>savePost\<close> hands to \<open>insert\<close>.  A column whose property is
  \<open>undefined\<close> is left out of the request and is taken to be stored as \<open>NULL\<close>, as
  one whose property is \<open>null\<close>.
\<close>

definition new_row :: "postData \<Rightarrow> post_row" where
  "new_row pd =
     \<lparr>post_id = pd_id pd,
      title = pd_title pd,
      author = pd_author pd,
      subreddit = pd_subreddit pd,
      score = pd_score pd,
      upvote_ratio = (case pd_upvote_ratio pd of
                        Missing \<Rightarrow> None
                      | Null \<Rightarrow> None
                      | Given v \<Rightarrow> Some v),
      url = pd_url pd,
      created_utc = js_date (pd_created_utc pd * 1000),
      num_comments = pd_num_comments pd,
      selftext = pd_selftext pd,
      permalink = pd_permalink pd,
      thumbnail = pd_thumbnail pd,
      is_video = (pd_is_video pd \<or> False),
      domain = pd_domain pd,
      link_flair_text = pd_link_flair_text pd,
      last_updated_at = None\<rparr>"

definition savePost :: "postData \<Rightarrow> world \<Rightarrow> (error + post_row list option) \<times> world" where
  "savePost pd w =
     (case getPostById (pd_id pd) w of
        (Inl e, w1) \<Rightarrow> (Inl e, w1)
      | (Inr (Some existing), w1) \<Rightarrow> updatePost pd w1
      | (Inr None, w1) \<Rightarrow>
          (case insert_post (new_row pd) w1 of
             ((data, Some e), w2) \<Rightarrow> (Inl e, w2)
           | ((data, None), w2) \<Rightarrow> (Inr data, w2)))"

text \<open>
  \<open>updateSubredditLastScraped\<close> and \<open>createScrapingLog\<close>: each throws the client's
  error and returns \<open>data\<close> otherwise.  \<open>createScrapingLog\<close> stores
  \<open>logData.errorMessage || null\<close> and \<open>logData.durationMs || null\<close>, so an empty message
  and a zero duration are stored as \<open>null\<close>.
\<close>

definition updateSubredditLastScraped ::
  "string \<Rightarrow> world \<Rightarrow> (error + subreddit_row list option) \<times> world" where
  "updateSubredditLastScraped subredditName w =
     (case update_subreddits_eq (\<lambda>r. r\<lparr>last_scraped_at := Some (clock w)\<rparr>) subredditName w of
        ((data, Some e), w1) \<Rightarrow> (Inl e, w1)
      | ((data, None), w1) \<Rightarrow> (Inr data, w1))"

definition string_or_null :: "string option \<Rightarrow> string option" where
  "string_or_null v = (case v of None \<Rightarrow> None | Some s \<Rightarrow> if s = [] then None else Some s)"

definition number_or_null :: "nat option \<Rightarrow> nat option" where
  "number_or_null v = (case v of None \<Rightarrow> None | Some n \<Rightarrow> if n = 0 then None else Some n)"

definition log_row_of :: "logData \<Rightarrow> nat \<Rightarrow> log_row" where
  "log_row_of ld now =
     \<lparr>log_subreddit = ld_subreddit ld,
      scrape_type = scrapeType ld,
      status = ld_status ld,
      posts_found = postsFound ld,
      posts_saved = postsSaved ld,
      error_message = string_or_null (errorMessage ld),
      duration_ms = number_or_null (durationMs ld),
      completed_at = now\<rparr>"

definition createScrapingLog :: "logData \<Rightarrow> world \<Rightarrow> (error + log_row list option) \<times> world" where
  "createScrapingLog ld w =
     (case insert_log (log_row_of ld (clock w)) w of
        ((data, Some e), w1) \<Rightarrow> (Inl e, w1)
      | ((data, None), w1) \<Rightarrow> (Inr data, w1))"

section \<open>RedditService\<close>

definition trackedSubreddits :: "string list" where
  "trackedSubreddits =
     [''B2BSaas'', ''Business_Ideas'', ''Entrepreneur'', ''indiehackers'', ''Saas'',
      ''SaaSMarketing'', ''SaaS'', ''Startup_Ideas'', ''microsaas'']"

text \<open>
  \<open>formatPostData\<close>.  \<open>post.author || 'deleted'\<close> replaces an absent, \<open>null\<close> or empty
  author; \<open>post.selftext || ''\<close> and \<open>post.is_video || false\<close> replace an absent value.
\<close>

definition formatPostData :: "raw_post \<Rightarrow> postData" where
  "formatPostData post =
     \<lparr>pd_id = raw_id post,
      pd_title = raw_title post,
      pd_author = (case raw_author post of
                     None \<Rightarrow> ''deleted''
                   | Some a \<Rightarrow> if a = [] then ''deleted'' else a),
      pd_subreddit = raw_subreddit post,
      pd_score = raw_score post,
      pd_upvote_ratio = raw_upvote_ratio post,
      pd_url = raw_url post,
      pd_created_utc = raw_created_utc post,
      pd_num_comments = raw_num_comments post,
      pd_selftext = (case raw_selftext post of None \<Rightarrow> [] | Some s \<Rightarrow> s),
      pd_permalink = raw_permalink post,
      pd_thumbnail = raw_thumbnail post,
      pd_is_video = (case raw_is_video post of None \<Rightarrow> False | Some b \<Rightarrow> b),
      pd_domain = raw_domain post,
      pd_link_flair_text = raw_link_flair_text post\<rparr>"

text \<open>
  The \<open>for (const item of posts)\<close> loop shared by \<open>scrapeSubreddit\<close>, \<open>getTopPosts\<close>
  and \<open>getNewPosts\<close>: the inner \<open>try\<close> pushes a truthy \<open>saved\<close>, the inner \<open>catch\<close>
  logs the error and goes on with the next item.
\<close>

fun save_loop :: "raw_post list \<Rightarrow> post_row list list \<Rightarrow> world \<Rightarrow> post_row list list \<times> world" where
  "save_loop [] savedPosts w = (savedPosts, w)"
| "save_loop (post # rest) savedPosts w =
     (case savePost (formatPostData post) w of
        (Inr saved, w1) \<Rightarrow>
          save_loop rest (case saved of Some d \<Rightarrow> savedPosts @ [d] | None \<Rightarrow> savedPosts) w1
      | (Inl e, w1) \<Rightarrow> save_loop rest savedPosts w1)"

text \<open>
  \<open>scrapeSubreddit\<close>, \<open>getTopPosts\<close> and \<open>getNewPosts\<close>.  The inner \<open>case\<close> is the
  \<open>try\<close> block, whose value is the result or the first error thrown in it; the outer
  \<open>case\<close> is the \<open>catch\<close> block, which writes the error row and rethrows \<open>error\<close>
  unless \<open>createScrapingLog\<close> itself throws.  The three methods differ in the URL, in
  the \<open>scrapeType\<close> string and in the \<open>timeframe\<close> field of the result.
\<close>

fun timeframe_str :: "timeframe \<Rightarrow> string" where
  "timeframe_str Hour = ''hour''"
| "timeframe_str Day = ''day''"
| "timeframe_str Week = ''week''"
| "timeframe_str Month = ''month''"
| "timeframe_str Year = ''year''"
| "timeframe_str AllTime = ''all''"

definition scrapeSubreddit ::
  "string \<Rightarrow> nat \<Rightarrow> world \<Rightarrow> (error + ScrapeResult) \<times> world" where
  "scrapeSubreddit subredditName limit w =
     (let startTime = clock w in
      case (case axios_get (Hot subredditName limit) (delay 1000 w) of
              (Inl e, w2) \<Rightarrow> (Inl e, w2)
            | (Inr children, w2) \<Rightarrow>
                (case save_loop children [] w2 of
                   (savedPosts, w3) \<Rightarrow>
                     (case updateSubredditLastScraped subredditName w3 of
                        (Inl e, w4) \<Rightarrow> (Inl e, w4)
                      | (Inr d, w4) \<Rightarrow>
                          (let duration = clock w4 - startTime in
                           case createScrapingLog
                                  \<lparr>ld_subreddit = subredditName,
                                   scrapeType = ''hot'',
                                   ld_status = ''success'',
                                   postsFound = length children,
                                   postsSaved = length savedPosts,
                                   errorMessage = None,
                                   durationMs = Some duration\<rparr> w4 of
                             (Inl e, w5) \<Rightarrow> (Inl e, w5)
                           | (Inr d2, w5) \<Rightarrow>
                               (Inr \<lparr>res_subreddit = subredditName,
                                     totalPosts = length children,
                                     newPosts = length savedPosts,
                                     posts = savedPosts,
                                     duration = duration,
                                     res_timeframe = None,
                                     res_error = None\<rparr>, w5))))) of
        (Inr result, w6) \<Rightarrow> (Inr result, w6)
      | (Inl e, w6) \<Rightarrow>
          (let duration = clock w6 - startTime in
           case createScrapingLog
                  \<lparr>ld_subreddit = subredditName,
                   scrapeType = ''hot'',
                   ld_status = ''error'',
                   postsFound = 0,
                   postsSaved = 0,
                   errorMessage = Some (err_message e),
                   durationMs = Some duration\<rparr> w6 of
             (Inl e2, w7) \<Rightarrow> (Inl e2, w7)
           | (Inr d, w7) \<Rightarrow> (Inl e, w7)))"

definition getTopPosts ::
  "string \<Rightarrow> timeframe \<Rightarrow> nat \<Rightarrow> world \<Rightarrow> (error + ScrapeResult) \<times> world" where
  "getTopPosts subredditName tf limit w =
     (let startTime = clock w in
      case (case axios_get (Top subredditName tf limit) (delay 1000 w) of
              (Inl e, w2) \<Rightarrow> (Inl e, w2)
            | (Inr children, w2) \<Rightarrow>
                (case save_loop children [] w2 of
                   (savedPosts, w3) \<Rightarrow>
                     (case updateSubredditLastScraped subredditName w3 of
                        (Inl e, w4) \<Rightarrow> (Inl e, w4)
                      | (Inr d, w4) \<Rightarrow>
                          (let duration = clock w4 - startTime in
                           case createScrapingLog
                                  \<lparr>ld_subreddit = subredditName,
                                   scrapeType = ''top_'' @ timeframe_str tf,
                                   ld_status = ''success'',
                                   postsFound = length children,
                                   postsSaved = length savedPosts,
                                   errorMessage = None,
                                   durationMs = Some duration\<rparr> w4 of
                             (Inl e, w5) \<Rightarrow> (Inl e, w5)
                           | (Inr d2, w5) \<Rightarrow>
                               (Inr \<lparr>res_subreddit = subredditName,
                                     totalPosts = length children,
                                     newPosts = length savedPosts,
                                     posts = savedPosts,
                                     duration = duration,
                                     res_timeframe = Some tf,
                                     res_error = None\<rparr>, w5))))) of
        (Inr result, w6) \<Rightarrow> (Inr result, w6)
      | (Inl e, w6) \<Rightarrow>
          (let duration = clock w6 - startTime in
           case createScrapingLog
                  \<lparr>ld_subreddit = subredditName,
                   scrapeType = ''top_'' @ timeframe_str tf,
                   ld_status = ''error'',
                   postsFound = 0,
                   postsSaved = 0,
                   errorMessage = Some (err_message e),
                   durationMs = Some duration\<rparr> w6 of
             (Inl e2, w7) \<Rightarrow> (Inl e2, w7)
           | (Inr d, w7) \<Rightarrow> (Inl e, w7)))"

definition getNewPosts ::
  "string \<Rightarrow> nat \<Rightarrow> world \<Rightarrow> (error + ScrapeResult) \<times> world" where
  "getNewPosts subredditName limit w =
     (let startTime = clock w in
      case (case axios_get (New subredditName limit) (delay 1000 w) of
              (Inl e, w2) \<Rightarrow> (Inl e, w2)
            | (Inr children, w2) \<Rightarrow>
                (case save_loop children [] w2 of
                   (savedPosts, w3) \<Rightarrow>
                     (case updateSubredditLastScraped subredditName w3 of
                        (Inl e, w4) \<Rightarrow> (Inl e, w4)
                      | (Inr d, w4) \<Rightarrow>
                          (let duration = clock w4 - startTime in
                           case createScrapingLog
                                  \<lparr>ld_subreddit = subredditName,
                                   scrapeType = ''new'',
                                   ld_status = ''success'',
                                   postsFound = length children,
                                   postsSaved = length savedPosts,
                                   errorMessage = None,
                                   durationMs = Some duration\<rparr> w4 of
                             (Inl e, w5) \<Rightarrow> (Inl e, w5)
                           | (Inr d2, w5) \<Rightarrow>
                               (Inr \<lparr>res_subreddit = subredditName,
                                     totalPosts = length children,
                                     newPosts = length savedPosts,
                                     posts = savedPosts,
                                     duration = duration,
                                     res_timeframe = None,
                                     res_error = None\<rparr>, w5))))) of
        (Inr result, w6) \<Rightarrow> (Inr result, w6)
      | (Inl e, w6) \<Rightarrow>
          (let duration = clock w6 - startTime in
           case createScrapingLog
                  \<lparr>ld_subreddit = subredditName,
                   scrapeType = ''new'',
                   ld_status = ''error'',
                   postsFound = 0,
                   postsSaved = 0,
                   errorMessage = Some (err_message e),
                   durationMs = Some duration\<rparr> w6 of
             (Inl e2, w7) \<Rightarrow> (Inl e2, w7)
           | (Inr d, w7) \<Rightarrow> (Inl e, w7)))"

text \<open>\<open>searchPosts\<close>: one delay, one request, no call to the storage client.\<close>

definition search_hit_of :: "raw_post \<Rightarrow> search_hit" where
  "search_hit_of post =
     \<lparr>hit_id = raw_id post,
      hit_title = raw_title post,
      hit_author = (case raw_author post of
                      None \<Rightarrow> ''deleted''
                    | Some a \<Rightarrow> if a = [] then ''deleted'' else a),
      hit_subreddit = raw_subreddit post,
      hit_score = raw_score post,
      hit_url = raw_url post,
      hit_created_utc = raw_created_utc post,
      hit_num_comments = raw_num_comments post,
      hit_permalink = raw_permalink post\<rparr>"

definition searchPosts ::
  "string \<Rightarrow> string \<Rightarrow> nat \<Rightarrow> world \<Rightarrow> (error + search_hit list) \<times> world" where
  "searchPosts subredditName query limit w =
     (case axios_get (Search subredditName query limit) (delay 1000 w) of
        (Inl e, w2) \<Rightarrow> (Inl e, w2)
      | (Inr children, w2) \<Rightarrow> (Inr (map search_hit_of children), w2))"

text \<open>
  The entry that the \<open>catch\<close> of the two manual batch methods pushes for a tracked
  subreddit whose scrape threw.
\<close>

definition error_entry :: "string \<Rightarrow> timeframe option \<Rightarrow> error \<Rightarrow> ScrapeResult" where
  "error_entry sub tf e =
     \<lparr>res_subreddit = sub,
      totalPosts = 0,
      newPosts = 0,
      posts = [],
      duration = 0,
      res_timeframe = tf,
      res_error = Some (err_message e)\<rparr>"

text \<open>
  The loop of \<open>scrapeAllSubreddits\<close> and \<open>scrapeTopPostsAllSubreddits\<close>:
  \<open>scrape\<close> is the single-feed call of the \<open>try\<close> block, followed there by the push
  of its result and by \<open>delay(2000)\<close>.
\<close>

fun manual_loop ::
  "(string \<Rightarrow> world \<Rightarrow> (error + ScrapeResult) \<times> world) \<Rightarrow> timeframe option \<Rightarrow>
     string list \<Rightarrow> ScrapeResult list \<Rightarrow> world \<Rightarrow> ScrapeResult list \<times> world" where
  "manual_loop scrape tf [] rs w = (rs, w)"
| "manual_loop scrape tf (sub # rest) rs w =
     (case scrape sub w of
        (Inr result, w1) \<Rightarrow> manual_loop scrape tf rest (rs @ [result]) (delay 2000 w1)
      | (Inl e, w1) \<Rightarrow> manual_loop scrape tf rest (rs @ [error_entry sub tf e]) w1)"

definition scrapeAllSubreddits :: "world \<Rightarrow> BatchResult \<times> world" where
  "scrapeAllSubreddits w =
     (case manual_loop (\<lambda>sub. scrapeSubreddit sub 25) None trackedSubreddits [] w of
        (rs, w1) \<Rightarrow> (\<lparr>batch_total = length rs, batch_timeframe = None, results = rs\<rparr>, w1))"

definition scrapeTopPostsAllSubreddits :: "timeframe \<Rightarrow> world \<Rightarrow> BatchResult \<times> world" where
  "scrapeTopPostsAllSubreddits tf w =
     (case manual_loop (\<lambda>sub. getTopPosts sub tf 50) (Some tf) trackedSubreddits [] w of
        (rs, w1) \<Rightarrow> (\<lparr>batch_total = length rs, batch_timeframe = Some tf, results = rs\<rparr>, w1))"

text \<open>
  The loop of the two cron jobs \<open>scrapeAllSubredditsHourly\<close> and
  \<open>scrapeTopPostsWeekly\<close>: the same \<open>try\<close> block without a result list, and a
  \<open>catch\<close> that only logs.
\<close>

fun cron_loop ::
  "(string \<Rightarrow> world \<Rightarrow> (error + ScrapeResult) \<times> world) \<Rightarrow> string list \<Rightarrow> world \<Rightarrow> world" where
  "cron_loop scrape [] w = w"
| "cron_loop scrape (sub # rest) w =
     (case scrape sub w of
        (Inr result, w1) \<Rightarrow> cron_loop scrape rest (delay 2000 w1)
      | (Inl e, w1) \<Rightarrow> cron_loop scrape rest w1)"

definition scrapeAllSubredditsHourly :: "world \<Rightarrow> world" where
  "scrapeAllSubredditsHourly w = cron_loop (\<lambda>sub. scrapeSubreddit sub 25) trackedSubreddits w"

definition scrapeTopPostsWeekly :: "world \<Rightarrow> world" where
  "scrapeTopPostsWeekly w = cron_loop (\<lambda>sub. getTopPosts sub Week 50) trackedSubreddits w"

section \<open>Notions used in the statements\<close>

text \<open>
  The columns that \<open>updatePost\<close> writes, as one function on a row, and the columns it
  never names.
\<close>

definition touch :: "postData \<Rightarrow> nat \<Rightarrow> post_row \<Rightarrow> post_row" where
  "touch pd now r =
     r\<lparr>score := pd_score pd, num_comments := pd_num_comments pd,
       upvote_ratio := (case pd_upvote_ratio pd of
                          Missing \<Rightarrow> upvote_ratio r
                        | Null \<Rightarrow> None
                        | Given v \<Rightarrow> Some v),
       selftext := pd_selftext pd,
       last_updated_at := Some now\<rparr>"

definition frozen ::
  "post_row \<Rightarrow> string \<times> string \<times> string \<times> string \<times> string \<times> string \<times> int option" where
  "frozen r = (post_id r, title r, author r, subreddit r, permalink r, url r, created_utc r)"

definition synced :: "postData \<Rightarrow> post_row \<Rightarrow> bool" where
  "synced pd r \<longleftrightarrow> score r = pd_score pd \<and> num_comments r = pd_num_comments pd \<and>
     (case pd_upvote_ratio pd of
        Missing \<Rightarrow> True
      | Null \<Rightarrow> upvote_ratio r = None
      | Given v \<Rightarrow> upvote_ratio r = Some v) \<and>
     selftext r = pd_selftext pd"

text \<open>The Snapshot of a row, taken at a given time.\<close>

definition snapshot_of :: "nat \<Rightarrow> post_row \<Rightarrow> snapshot_row" where
  "snapshot_of now r =
     \<lparr>snap_post_id = post_id r, snap_score = score r, snap_num_comments = num_comments r,
      snap_upvote_ratio = upvote_ratio r, snapshot_at = now\<rparr>"

text \<open>
  The storage engine reports PGRST116 only as the answer of \<open>single()\<close> to a count of
  rows other than one, never as a failure of its own.
\<close>

definition engine_sound :: "world \<Rightarrow> bool" where
  "engine_sound w \<longleftrightarrow>
     (\<forall>k op e. db_fault w k op = Some e \<longrightarrow> err_code e \<noteq> Some ''PGRST116'')"

text \<open>
  The shape that the three scraping methods share: their \<open>catch\<close> block, and the whole
  body with the request, the \<open>scrapeType\<close> string and the \<open>timeframe\<close> field as
  parameters.
\<close>

definition scrape_catch ::
  "string \<Rightarrow> string \<Rightarrow> nat \<Rightarrow> error \<Rightarrow> world \<Rightarrow> (error + ScrapeResult) \<times> world" where
  "scrape_catch subredditName stype startTime e w =
     (let duration = clock w - startTime in
      case createScrapingLog
             \<lparr>ld_subreddit = subredditName,
              scrapeType = stype,
              ld_status = ''error'',
              postsFound = 0,
              postsSaved = 0,
              errorMessage = Some (err_message e),
              durationMs = Some duration\<rparr> w of
        (Inl e2, w1) \<Rightarrow> (Inl e2, w1)
      | (Inr d, w1) \<Rightarrow> (Inl e, w1))"

definition scrape_body ::
  "request \<Rightarrow> string \<Rightarrow> timeframe option \<Rightarrow> string \<Rightarrow> world \<Rightarrow> (error + ScrapeResult) \<times> world" where
  "scrape_body req stype tf subredditName w =
     (let startTime = clock w;
          w1 = delay 1000 w
      in case axios_get req w1 of
           (Inl e, w2) \<Rightarrow> scrape_catch subredditName stype startTime e w2
         | (Inr children, w2) \<Rightarrow>
             (case save_loop children [] w2 of
                (savedPosts, w3) \<Rightarrow>
                  (case updateSubredditLastScraped subredditName w3 of
                     (Inl e, w4) \<Rightarrow> scrape_catch subredditName stype startTime e w4
                   | (Inr d, w4) \<Rightarrow>
                       (let duration = clock w4 - startTime in
                        case createScrapingLog
                               \<lparr>ld_subreddit = subredditName,
                                scrapeType = stype,
                                ld_status = ''success'',
                                postsFound = length children,
                                postsSaved = length savedPosts,
                                errorMessage = None,
                                durationMs = Some duration\<rparr> w4 of
                          (Inl e, w5) \<Rightarrow> scrape_catch subredditName stype startTime e w5
                        | (Inr d2, w5) \<Rightarrow>
                            (Inr \<lparr>res_subreddit = subredditName,
                                  totalPosts = length children,
                                  newPosts = length savedPosts,
                                  posts = savedPosts,
                                  duration = duration,
                                  res_timeframe = tf,
                                  res_error = None\<rparr>, w5)))))"

text \<open>The world after one step of a scrape, for each kind of step.\<close>

definition after_fetch :: "request \<Rightarrow> world \<Rightarrow> world" where
  "after_fetch req w =
     w\<lparr>clock := clock w + 1000, trace := trace w @ [Delay 1000, HttpGet req],
       http_calls := Suc (http_calls w)\<rparr>"

definition skipped :: "world \<Rightarrow> world" where
  "skipped w = w\<lparr>db_calls := Suc (db_calls w)\<rparr>"

definition touched :: "string \<Rightarrow> world \<Rightarrow> world" where
  "touched n w =
     w\<lparr>db_calls := Suc (db_calls w),
       subreddits :=
         map (\<lambda>r. if sub_name r = n then r\<lparr>last_scraped_at := Some (clock w)\<rparr> else r)
           (subreddits w)\<rparr>"

definition logged :: "logData \<Rightarrow> world \<Rightarrow> world" where
  "logged ld w =
     w\<lparr>db_calls := Suc (db_calls w),
       scraping_logs := scraping_logs w @ [log_row_of ld (clock w)]\<rparr>"

definition error_log :: "string \<Rightarrow> string \<Rightarrow> nat \<Rightarrow> error \<Rightarrow> logData" where
  "error_log n stype d e =
     \<lparr>ld_subreddit = n, scrapeType = stype, ld_status = ''error'', postsFound = 0,
      postsSaved = 0, errorMessage = Some (err_message e), durationMs = Some d\<rparr>"

definition success_log :: "string \<Rightarrow> string \<Rightarrow> nat \<Rightarrow> nat \<Rightarrow> nat \<Rightarrow> logData" where
  "success_log n stype d found saved =
     \<lparr>ld_subreddit = n, scrapeType = stype, ld_status = ''success'', postsFound = found,
      postsSaved = saved, errorMessage = None, durationMs = Some d\<rparr>"

text \<open>
  The outcome of each item's \<open>savePost\<close> in the order of the loop, each call running in
  the world the previous one left, and what the loop pushes for an outcome.
\<close>

fun save_outcomes :: "raw_post list \<Rightarrow> world \<Rightarrow> (error + post_row list option) list" where
  "save_outcomes [] w = []"
| "save_outcomes (post # rest) w =
     fst (savePost (formatPostData post) w) #
     save_outcomes rest (snd (savePost (formatPostData post) w))"

fun pushed :: "error + post_row list option \<Rightarrow> post_row list list" where
  "pushed (Inr (Some d)) = [d]"
| "pushed (Inr None) = []"
| "pushed (Inl e) = []"

definition after_feed :: "(error + ScrapeResult) \<times> world \<Rightarrow> world" where
  "after_feed out = (if isl (fst out) then snd out else delay 2000 (snd out))"

fun feed_outcomes ::
  "(string \<Rightarrow> world \<Rightarrow> (error + ScrapeResult) \<times> world) \<Rightarrow> string list \<Rightarrow> world \<Rightarrow>
     (error + ScrapeResult) list" where
  "feed_outcomes scrape [] w = []"
| "feed_outcomes scrape (sub # rest) w =
     fst (scrape sub w) # feed_outcomes scrape rest (after_feed (scrape sub w))"

definition entry_of :: "timeframe option \<Rightarrow> string \<Rightarrow> error + ScrapeResult \<Rightarrow> ScrapeResult" where
  "entry_of tf sub out = (case out of Inr result \<Rightarrow> result | Inl e \<Rightarrow> error_entry sub tf e)"

definition feed_events :: "request \<Rightarrow> error + ScrapeResult \<Rightarrow> event list" where
  "feed_events req out = [Delay 1000, HttpGet req] @ (if isl out then [] else [Delay 2000])"

definition writes_one_log ::
  "string \<Rightarrow> string \<Rightarrow> world \<Rightarrow> (error + ScrapeResult) \<times> world \<Rightarrow> bool" where
  "writes_one_log n stype w out \<longleftrightarrow>
     (let row = last (scraping_logs (snd out)) in
      scraping_logs (snd out) = scraping_logs w @ [row] \<and>
      log_subreddit row = n \<and> scrape_type row = stype \<and>
      (case fst out of
         Inr r \<Rightarrow>
           status row = ''success'' \<and> posts_found row = totalPosts r \<and>
           posts_saved row = newPosts r
       | Inl e \<Rightarrow>
           status row = ''error'' \<and> posts_found row = 0 \<and> posts_saved row = 0 \<and>
           error_message row = string_or_null (Some (err_message e))))"

definition rethrows_fetch_error :: "world \<Rightarrow> (error + 'a) \<times> world \<Rightarrow> bool" where
  "rethrows_fetch_error w out \<longleftrightarrow>
     (case http_reply w (http_calls w) of Inl e \<Rightarrow> fst out = Inl e | Inr children \<Rightarrow> True)"

definition item_failures_isolated ::
  "request \<Rightarrow> raw_post list \<Rightarrow> world \<Rightarrow> (error + ScrapeResult) \<times> world \<Rightarrow> bool" where
  "item_failures_isolated req children w out \<longleftrightarrow>
     (let outcomes = save_outcomes children (after_fetch req w);
          row = last (scraping_logs (snd out))
      in length outcomes = length children \<and>
         (case fst out of
            Inl e \<Rightarrow> False
          | Inr r \<Rightarrow>
              totalPosts r = length children \<and>
              posts r = concat (map pushed outcomes) \<and>
              newPosts r = length (filter (\<lambda>out. \<not> isl out) outcomes) \<and>
              scraping_logs (snd out) = scraping_logs w @ [row] \<and>
              status row = ''success'' \<and> posts_found row = length children \<and>
              posts_saved row = newPosts r))"

fun requests_of :: "event list \<Rightarrow> request list" where
  "requests_of [] = []"
| "requests_of (Delay ms # evs) = requests_of evs"
| "requests_of (HttpGet req # evs) = req # requests_of evs"

section \<open>Sample inputs\<close>

definition net_error :: error where
  "net_error = Error None ''Network Error''"

definition db_timeout :: error where
  "db_timeout = Error (Some ''57014'') ''canceling statement due to statement timeout''"

text \<open>An empty store, an unreachable feed and a storage engine that rejects nothing.\<close>

definition world0 :: world where
  "world0 =
     \<lparr>reddit_posts = [], post_snapshots = [], scraping_logs = [], subreddits = [],
      clock = 0, trace = [], http_calls = 0, http_reply = (\<lambda>n. Inl net_error),
      db_calls = 0, db_fault = (\<lambda>n op. None)\<rparr>"

definition post_p1 :: raw_post where
  "post_p1 =
     \<lparr>raw_id = ''p1'', raw_title = ''Launch week'', raw_author = Some ''alice'',
      raw_subreddit = ''SaaS'', raw_score = 10, raw_upvote_ratio = Given 1,
      raw_url = ''https://example.org'', raw_created_utc = 1700000000,
      raw_num_comments = 2, raw_selftext = Some ''hello'', raw_permalink = ''/r/SaaS/p1'',
      raw_thumbnail = None, raw_is_video = Some False, raw_domain = None,
      raw_link_flair_text = None\<rparr>"

definition post_p1_later :: raw_post where
  "post_p1_later = post_p1\<lparr>raw_score := 15, raw_num_comments := 3\<rparr>"

definition post_p2 :: raw_post where
  "post_p2 = post_p1\<lparr>raw_id := ''p2'', raw_title := ''Pricing page'', raw_permalink := ''/r/SaaS/p2''\<rparr>"

definition post_deleted :: raw_post where
  "post_deleted = post_p1\<lparr>raw_author := Some ''[deleted]''\<rparr>"

definition post_bare :: raw_post where
  "post_bare = post_p1\<lparr>raw_author := None, raw_selftext := None, raw_is_video := None\<rparr>"

text \<open>The store after \<open>post_p1\<close> has been ingested once into the empty store.\<close>

definition seen_p1 :: world where
  "seen_p1 = snd (savePost (formatPostData post_p1) world0)"

text \<open>
  Further worlds: the store that holds \<open>p1\<close> behind a feed that returns \<open>p1\<close> again;
  an empty store behind a feed of three items, where the fourth storage call (the insert
  of \<open>p2\<close>) is rejected; the same with every update of \<open>subreddits\<close> rejected as
  well; a feed that answers the first request with an empty listing and fails
  afterwards; and a store whose table \<open>subreddits\<close> has one active row, for a
  subreddit that is not in the hard-coded list.
\<close>

definition configured :: world where
  "configured =
     world0\<lparr>subreddits :=
              [\<lparr>sub_name = ''webdev'', display_name = ''webdev'', description = None,
                is_active = True, last_scraped_at = None\<rparr>]\<rparr>"

definition post_p3 :: raw_post where
  "post_p3 = post_p1\<lparr>raw_id := ''p3'', raw_title := ''Churn'', raw_permalink := ''/r/SaaS/p3''\<rparr>"

definition feed_p1_again :: world where
  "feed_p1_again = seen_p1\<lparr>http_reply := (\<lambda>k. Inr [post_p1])\<rparr>"

definition flaky_store :: world where
  "flaky_store =
     world0\<lparr>http_reply := (\<lambda>k. Inr [post_p1, post_p2, post_p3]),
            db_fault := (\<lambda>k op. if k = 3 \<and> op = InsertPost then Some db_timeout else None)\<rparr>"

definition flaky_store_no_touch :: world where
  "flaky_store_no_touch =
     world0\<lparr>http_reply := (\<lambda>k. Inr [post_p1, post_p2, post_p3]),
            db_fault := (\<lambda>k op. if k = 3 \<and> op = InsertPost \<or> op = UpdateSubreddit
                                 then Some db_timeout else None)\<rparr>"

definition first_feed_up :: world where
  "first_feed_up = world0\<lparr>http_reply := (\<lambda>k. if k = 0 then Inr [] else Inl net_error)\<rparr>"

section \<open>The storage calls in closed form\<close>

lemma skipped_simps [simp]:
  "reddit_posts (skipped w) = reddit_posts w"
  "post_snapshots (skipped w) = post_snapshots w"
  "scraping_logs (skipped w) = scraping_logs w"
  "subreddits (skipped w) = subreddits w"
  "clock (skipped w) = clock w"
  "trace (skipped w) = trace w"
  "http_calls (skipped w) = http_calls w"
  "http_reply (skipped w) = http_reply w"
  "db_calls (skipped w) = Suc (db_calls w)"
  "db_fault (skipped w) = db_fault w"
  by (simp_all add: skipped_def)

lemma getPostById_eq:
  "getPostById i w =
     (case db_fault w (db_calls w) SelectPost of
        Some e \<Rightarrow> (if err_code e \<noteq> Some ''PGRST116'' then Inl e else Inr None)
      | None \<Rightarrow>
          Inr (case filter (\<lambda>r. post_id r = i) (reddit_posts w) of [r] \<Rightarrow> Some r | _ \<Rightarrow> None),
      w\<lparr>db_calls := Suc (db_calls w)\<rparr>)"
  by (simp add: getPostById_def select_post_single_def db_call_def PGRST116_def
      split: option.splits list.splits)

lemma updatePost_eq:
  "updatePost pd w =
     (case db_fault w (db_calls w) UpdatePost of
        Some e \<Rightarrow> (Inl e, w\<lparr>db_calls := Suc (db_calls w)\<rparr>)
      | None \<Rightarrow>
         (Inr (Some (map (touch pd (clock w))
                       (filter (\<lambda>r. post_id r = pd_id pd) (reddit_posts w)))),
          w\<lparr>db_calls := Suc (db_calls w),
            reddit_posts :=
              map (\<lambda>r. if post_id r = pd_id pd then touch pd (clock w) r else r)
                (reddit_posts w),
            post_snapshots :=
              post_snapshots w @
              map (snapshot_of (clock w))
                (map (touch pd (clock w))
                   (filter (\<lambda>r. post_id r = pd_id pd) (reddit_posts w)))\<rparr>))"
  by (simp add: updatePost_def update_posts_eq_def db_call_def touch_def snapshot_of_def
        Let_def comp_def
      split: option.splits)

lemma insert_post_eq:
  "insert_post row w =
     (case db_fault w (db_calls w) InsertPost of
        Some e \<Rightarrow> ((None, Some e), w\<lparr>db_calls := Suc (db_calls w)\<rparr>)
      | None \<Rightarrow>
          ((Some [row], None),
           w\<lparr>db_calls := Suc (db_calls w), reddit_posts := reddit_posts w @ [row]\<rparr>))"
  by (simp add: insert_post_def db_call_def split: option.splits)

text \<open>
  \<open>savePost\<close> changes the tables \<open>reddit_posts\<close> and \<open>post_snapshots\<close> and nothing
  else.
\<close>

lemma savePost_only_posts:
  "snd (savePost pd w) =
     w\<lparr>reddit_posts := reddit_posts (snd (savePost pd w)),
       post_snapshots := post_snapshots (snd (savePost pd w)),
       db_calls := db_calls (snd (savePost pd w))\<rparr>"
  by (simp add: savePost_def getPostById_eq updatePost_eq insert_post_eq
      split: option.splits list.splits)

lemma savePost_keeps:
  assumes "\<And>w X Y Z. f (w\<lparr>reddit_posts := X, post_snapshots := Y, db_calls := Z\<rparr>) = f w"
  shows "f (snd (savePost pd w)) = f w"
  using arg_cong [OF savePost_only_posts [of pd w], of f] by (simp only: assms)

lemmas savePost_frame [simp] =
  savePost_keeps [of scraping_logs, simplified]
  savePost_keeps [of subreddits, simplified] savePost_keeps [of clock, simplified]
  savePost_keeps [of trace, simplified] savePost_keeps [of http_calls, simplified]
  savePost_keeps [of http_reply, simplified] savePost_keeps [of db_fault, simplified]

subsection \<open>A store with at most one row per id\<close>

lemma touch_simps [simp]:
  "post_id (touch pd t r) = post_id r"
  "frozen (touch pd t r) = frozen r"
  "synced pd (touch pd t r)"
  "last_updated_at (touch pd t r) = Some t"
  by (simp_all add: touch_def frozen_def synced_def split: property.splits)

lemma touch_synced: "synced pd r \<Longrightarrow> touch pd t r = r\<lparr>last_updated_at := Some t\<rparr>"
  by (simp add: touch_def synced_def split: property.splits)

lemma new_row_simps [simp]:
  "post_id (new_row pd) = pd_id pd"
  "synced pd (new_row pd)"
  "created_utc (new_row pd) = js_date (pd_created_utc pd * 1000)"
  "last_updated_at (new_row pd) = None"
  by (simp_all add: new_row_def synced_def split: property.splits)

lemma filter_unique:
  "distinct (map f xs) \<Longrightarrow>
   filter (\<lambda>x. f x = i) xs = (case find (\<lambda>x. f x = i) xs of None \<Rightarrow> [] | Some x \<Rightarrow> [x])"
proof (induction xs)
  case Nil
  show ?case by simp
next
  case (Cons x xs)
  have "f x = i \<Longrightarrow> filter (\<lambda>y. f y = i) xs = []"
    using Cons.prems by (auto simp: filter_empty_conv image_iff)
  with Cons show ?case by simp
qed

lemma find_None_ids: "find (\<lambda>r. post_id r = i) rows = None \<longleftrightarrow> i \<notin> post_id ` set rows"
  by (auto simp: find_None_iff)

lemma engine_soundD:
  "engine_sound w \<Longrightarrow> db_fault w k op = Some e \<Longrightarrow> err_code e \<noteq> Some ''PGRST116''"
  by (simp add: engine_sound_def)

lemma savePost_lookup_failed:
  assumes "db_fault w (db_calls w) SelectPost = Some e" "err_code e \<noteq> Some ''PGRST116''"
  shows "savePost pd w = (Inl e, skipped w)"
  using assms by (simp add: savePost_def getPostById_eq skipped_def)

lemma savePost_known:
  assumes "db_fault w (db_calls w) SelectPost = None"
    and "distinct (map post_id (reddit_posts w))"
    and "pd_id pd \<in> post_id ` set (reddit_posts w)"
  shows "savePost pd w = updatePost pd (skipped w)"
proof -
  obtain r where "find (\<lambda>r. post_id r = pd_id pd) (reddit_posts w) = Some r"
    using assms(3) find_None_ids [of "pd_id pd" "reddit_posts w"]
    by (cases "find (\<lambda>r. post_id r = pd_id pd) (reddit_posts w)") auto
  then show ?thesis
    using assms(1) filter_unique [OF assms(2), of "pd_id pd"]
    by (simp add: savePost_def getPostById_eq skipped_def)
qed

lemma savePost_unknown:
  assumes "db_fault w (db_calls w) SelectPost = None"
    and "pd_id pd \<notin> post_id ` set (reddit_posts w)"
  shows "savePost pd w =
           (case db_fault w (Suc (db_calls w)) InsertPost of
              Some e \<Rightarrow> (Inl e, skipped (skipped w))
            | None \<Rightarrow>
                (Inr (Some [new_row pd]),
                 (skipped (skipped w))\<lparr>reddit_posts := reddit_posts w @ [new_row pd]\<rparr>))"
proof -
  have "filter (\<lambda>r. post_id r = pd_id pd) (reddit_posts w) = []"
    using assms(2) by (auto simp: filter_empty_conv image_iff)
  then show ?thesis
    using assms(1)
    by (simp add: savePost_def getPostById_eq insert_post_eq skipped_def split: option.splits)
qed

lemma updatePost_skipped:
  "updatePost pd (skipped w) =
     (case db_fault w (Suc (db_calls w)) UpdatePost of
        Some e \<Rightarrow> (Inl e, skipped (skipped w))
      | None \<Rightarrow>
         (Inr (Some (map (touch pd (clock w))
                       (filter (\<lambda>r. post_id r = pd_id pd) (reddit_posts w)))),
          (skipped (skipped w))\<lparr>reddit_posts :=
             map (\<lambda>r. if post_id r = pd_id pd then touch pd (clock w) r else r)
               (reddit_posts w),
            post_snapshots :=
              post_snapshots w @
              map (snapshot_of (clock w))
                (map (touch pd (clock w))
                   (filter (\<lambda>r. post_id r = pd_id pd) (reddit_posts w)))\<rparr>))"
  by (simp add: updatePost_eq skipped_def split: option.splits)

text \<open>
  What one call of \<open>savePost\<close> leaves in the table: nothing new when it throws, the
  touched row when the id is known, one more row when it is not.
\<close>

lemma savePost_outcome:
  assumes inv: "distinct (map post_id (reddit_posts w))" and sound: "engine_sound w"
  shows "(isl (fst (savePost pd w)) \<and> reddit_posts (snd (savePost pd w)) = reddit_posts w)
       \<or> (\<not> isl (fst (savePost pd w)) \<and> pd_id pd \<in> post_id ` set (reddit_posts w) \<and>
           reddit_posts (snd (savePost pd w)) =
             map (\<lambda>r. if post_id r = pd_id pd then touch pd (clock w) r else r) (reddit_posts w))
       \<or> (\<not> isl (fst (savePost pd w)) \<and> pd_id pd \<notin> post_id ` set (reddit_posts w) \<and>
           reddit_posts (snd (savePost pd w)) = reddit_posts w @ [new_row pd])"
proof (cases "db_fault w (db_calls w) SelectPost")
  case (Some e)
  then show ?thesis
    using savePost_lookup_failed [OF Some engine_soundD [OF sound Some], of pd] by simp
next
  case None
  show ?thesis
  proof (cases "pd_id pd \<in> post_id ` set (reddit_posts w)")
    case True
    show ?thesis
      using True
      by (simp add: savePost_known [OF None inv True] updatePost_skipped split: option.splits)
  next
    case False
    show ?thesis
      using False by (simp add: savePost_unknown [OF None False] split: option.splits)
  qed
qed

lemma map_touch_ids:
  "map post_id (map (\<lambda>r. if post_id r = i then touch pd t r else r) rows) = map post_id rows"
  by (induction rows) simp_all

lemma map_touch_frozen:
  "map frozen (map (\<lambda>r. if post_id r = i then touch pd t r else r) rows) = map frozen rows"
  by (induction rows) simp_all

lemma frozen_literal:
  "frozen = (\<lambda>r. (post_id r, title r, author r, subreddit r, permalink r, url r, created_utc r))"
  by (rule ext) (simp add: frozen_def)

lemma touched_rows_synced:
  "\<forall>r \<in> set (map (\<lambda>r. if post_id r = i then touch pd t r else r) rows).
      post_id r = i \<longrightarrow> synced pd r"
  by (induction rows) simp_all

lemma retouch:
  assumes "\<forall>r \<in> set rows. post_id r = i \<longrightarrow> synced pd r"
  shows "map (\<lambda>r. if post_id r = i then touch pd t r else r) rows =
         map (\<lambda>r. if post_id r = i then r\<lparr>last_updated_at := Some t\<rparr> else r) rows"
  using assms by (induction rows) (simp_all add: touch_synced)

lemma savePost_distinct:
  assumes inv: "distinct (map post_id (reddit_posts w))" and sound: "engine_sound w"
  shows "distinct (map post_id (reddit_posts (snd (savePost pd w))))"
  using savePost_outcome [OF inv sound, of pd] inv
  by (auto simp: map_touch_ids simp del: map_map)

lemma savePost_synced:
  assumes inv: "distinct (map post_id (reddit_posts w))" and sound: "engine_sound w"
    and ok: "\<not> isl (fst (savePost pd w))"
  shows "pd_id pd \<in> post_id ` set (reddit_posts (snd (savePost pd w))) \<and>
         (\<forall>r \<in> set (reddit_posts (snd (savePost pd w))). post_id r = pd_id pd \<longrightarrow> synced pd r)"
proof -
  let ?rows = "reddit_posts w" and ?rows' = "reddit_posts (snd (savePost pd w))"
  consider
      (updated) "pd_id pd \<in> post_id ` set ?rows"
        "?rows' = map (\<lambda>r. if post_id r = pd_id pd then touch pd (clock w) r else r) ?rows"
    | (created) "pd_id pd \<notin> post_id ` set ?rows" "?rows' = ?rows @ [new_row pd]"
    using savePost_outcome [OF inv sound, of pd] ok by blast
  then show ?thesis
  proof cases
    case updated
    have "post_id ` set ?rows' = post_id ` set ?rows"
      using arg_cong [OF map_touch_ids [of "pd_id pd" pd "clock w" ?rows], of set]
      by (simp only: updated(2) set_map)
    then show ?thesis
      using updated(1) touched_rows_synced [of "pd_id pd" pd "clock w" ?rows]
      by (simp only: updated(2))
  next
    case created
    have "\<forall>r \<in> set ?rows. post_id r \<noteq> pd_id pd"
      using created(1) by (auto simp: image_iff)
    then show ?thesis
      by (simp add: created(2))
  qed
qed

lemma filter_the_row:
  assumes "distinct (map post_id rows)" and "r \<in> set rows"
  shows "filter (\<lambda>x. post_id x = post_id r) rows = [r]"
  using assms
proof (induction rows)
  case Nil
  then show ?case by simp
next
  case (Cons x xs)
  show ?case
  proof (cases "x = r")
    case True
    have "filter (\<lambda>y. post_id y = post_id r) xs = []"
      using Cons.prems(1) True by (auto simp: filter_empty_conv image_iff)
    then show ?thesis
      using True by simp
  next
    case False
    then have "r \<in> set xs"
      using Cons.prems(2) by simp
    moreover from this have "post_id x \<noteq> post_id r"
      using Cons.prems(1) by (auto simp: image_iff)
    ultimately show ?thesis
      using Cons.IH Cons.prems(1) by simp
  qed
qed

lemma savePost_known_eq:
  assumes "distinct (map post_id (reddit_posts w))" and "engine_sound w"
    and "pd_id pd \<in> post_id ` set (reddit_posts w)"
  shows "savePost pd w =
           (case db_fault w (db_calls w) SelectPost of
              Some e \<Rightarrow> (Inl e, skipped w)
            | None \<Rightarrow> updatePost pd (skipped w))"
proof (cases "db_fault w (db_calls w) SelectPost")
  case (Some e)
  then show ?thesis
    using savePost_lookup_failed [OF Some engine_soundD [OF assms(2) Some], of pd] by simp
next
  case None
  then show ?thesis
    by (simp add: savePost_known [OF None assms(1,3)])
qed

lemma savePost_unknown_eq:
  assumes "engine_sound w" and "pd_id pd \<notin> post_id ` set (reddit_posts w)"
  shows "savePost pd w =
           (case db_fault w (db_calls w) SelectPost of
              Some e \<Rightarrow> (Inl e, skipped w)
            | None \<Rightarrow>
                (case db_fault w (Suc (db_calls w)) InsertPost of
                   Some e \<Rightarrow> (Inl e, skipped (skipped w))
                 | None \<Rightarrow>
                     (Inr (Some [new_row pd]),
                      (skipped (skipped w))\<lparr>reddit_posts := reddit_posts w @ [new_row pd]\<rparr>)))"
proof (cases "db_fault w (db_calls w) SelectPost")
  case (Some e)
  then show ?thesis
    using savePost_lookup_failed [OF Some engine_soundD [OF assms(1) Some], of pd] by simp
next
  case None
  then show ?thesis
    by (simp add: savePost_unknown [OF None assms(2)])
qed

text \<open>The update of a row that is known, when the store accepts both calls.\<close>

lemma savePost_updates:
  assumes inv: "distinct (map post_id (reddit_posts w))" and sound: "engine_sound w"
    and row: "r \<in> set (reddit_posts w)" "post_id r = pd_id pd"
    and accepted: "db_fault w (db_calls w) SelectPost = None"
      "db_fault w (Suc (db_calls w)) UpdatePost = None"
  shows "savePost pd w =
           (Inr (Some [touch pd (clock w) r]),
            (skipped (skipped w))
              \<lparr>reddit_posts :=
                 map (\<lambda>x. if post_id x = pd_id pd then touch pd (clock w) x else x)
                   (reddit_posts w),
               post_snapshots :=
                 post_snapshots w @ [snapshot_of (clock w) (touch pd (clock w) r)]\<rparr>)"
proof -
  have known: "pd_id pd \<in> post_id ` set (reddit_posts w)"
    using row(1) by (simp only: row(2) [symmetric] image_eqI [OF refl])
  have only: "filter (\<lambda>x. post_id x = pd_id pd) (reddit_posts w) = [r]"
    using filter_the_row [OF inv row(1)] by (simp add: row(2))
  show ?thesis
    by (simp add: savePost_known_eq [OF inv sound known] updatePost_skipped accepted only)
qed

text \<open>When, and only when, \<open>savePost\<close> throws.\<close>

lemma savePost_throws_known:
  assumes "distinct (map post_id (reddit_posts w))" and "engine_sound w"
    and "pd_id pd \<in> post_id ` set (reddit_posts w)"
  shows "isl (fst (savePost pd w)) \<longleftrightarrow>
           db_fault w (db_calls w) SelectPost \<noteq> None \<or>
           db_fault w (Suc (db_calls w)) UpdatePost \<noteq> None"
  by (simp add: savePost_known_eq [OF assms] updatePost_skipped split: option.splits)

lemma savePost_throws_unknown:
  assumes "engine_sound w" and "pd_id pd \<notin> post_id ` set (reddit_posts w)"
  shows "isl (fst (savePost pd w)) \<longleftrightarrow>
           db_fault w (db_calls w) SelectPost \<noteq> None \<or>
           db_fault w (Suc (db_calls w)) InsertPost \<noteq> None"
  by (simp add: savePost_unknown_eq [OF assms] split: option.splits)

lemma savePost_snapshots_kept:
  assumes "distinct (map post_id (reddit_posts w))" and "engine_sound w"
    and "isl (fst (savePost pd w)) \<or> pd_id pd \<notin> post_id ` set (reddit_posts w)"
  shows "post_snapshots (snd (savePost pd w)) = post_snapshots w"
proof (cases "pd_id pd \<in> post_id ` set (reddit_posts w)")
  case True
  then show ?thesis
    using assms(3)
    by (simp add: savePost_known_eq [OF assms(1,2) True] updatePost_skipped
        split: option.splits)
next
  case False
  then show ?thesis
    by (simp add: savePost_unknown_eq [OF assms(2) False] split: option.splits)
qed

lemma snapshot_of_synced:
  "synced pd r \<Longrightarrow> snapshot_of t (touch pd t r) = snapshot_of t r"
  by (simp add: snapshot_of_def touch_def synced_def split: property.splits)

subsection \<open>The sample store\<close>

lemma world0_sound: "engine_sound world0"
  by (simp add: engine_sound_def world0_def)

lemma seen_p1_posts: "reddit_posts seen_p1 = [new_row (formatPostData post_p1)]"
  by (simp add: seen_p1_def savePost_def getPostById_eq insert_post_eq world0_def)

lemma first_ingest_p1:
  "savePost (formatPostData post_p1) world0 = (Inr (Some [new_row (formatPostData post_p1)]), seen_p1)"
  by (simp add: seen_p1_def savePost_def getPostById_eq insert_post_eq world0_def)

lemma seen_p1_rest:
  "post_snapshots seen_p1 = []" "scraping_logs seen_p1 = []" "subreddits seen_p1 = []"
  "db_fault seen_p1 = (\<lambda>n op. None)" "clock seen_p1 = 0" "db_calls seen_p1 = 2"
  "trace seen_p1 = []" "http_calls seen_p1 = 0"
  by (simp_all add: seen_p1_def savePost_def getPostById_eq insert_post_eq world0_def)

lemma seen_p1_sound: "engine_sound seen_p1"
  by (simp add: engine_sound_def seen_p1_rest)

lemma p1_ids [simp]:
  "pd_id (formatPostData post_p1) = ''p1''" "pd_id (formatPostData post_p1_later) = ''p1''"
  "pd_id (formatPostData post_p2) = ''p2''" "raw_id post_p1 = ''p1''"
  by (simp_all add: formatPostData_def post_p1_def post_p1_later_def post_p2_def)

section \<open>A scrape, step by step\<close>

lemma after_fetch_simps [simp]:
  "reddit_posts (after_fetch req w) = reddit_posts w"
  "post_snapshots (after_fetch req w) = post_snapshots w"
  "scraping_logs (after_fetch req w) = scraping_logs w"
  "subreddits (after_fetch req w) = subreddits w"
  "clock (after_fetch req w) = clock w + 1000"
  "trace (after_fetch req w) = trace w @ [Delay 1000, HttpGet req]"
  "http_calls (after_fetch req w) = Suc (http_calls w)"
  "http_reply (after_fetch req w) = http_reply w"
  "db_calls (after_fetch req w) = db_calls w"
  "db_fault (after_fetch req w) = db_fault w"
  by (simp_all add: after_fetch_def)

lemma touched_simps [simp]:
  "reddit_posts (touched n w) = reddit_posts w"
  "post_snapshots (touched n w) = post_snapshots w"
  "scraping_logs (touched n w) = scraping_logs w"
  "clock (touched n w) = clock w"
  "trace (touched n w) = trace w"
  "http_calls (touched n w) = http_calls w"
  "http_reply (touched n w) = http_reply w"
  "db_calls (touched n w) = Suc (db_calls w)"
  "db_fault (touched n w) = db_fault w"
  by (simp_all add: touched_def)

lemma logged_simps [simp]:
  "reddit_posts (logged ld w) = reddit_posts w"
  "post_snapshots (logged ld w) = post_snapshots w"
  "scraping_logs (logged ld w) = scraping_logs w @ [log_row_of ld (clock w)]"
  "subreddits (logged ld w) = subreddits w"
  "clock (logged ld w) = clock w"
  "trace (logged ld w) = trace w"
  "http_calls (logged ld w) = http_calls w"
  "http_reply (logged ld w) = http_reply w"
  "db_calls (logged ld w) = Suc (db_calls w)"
  "db_fault (logged ld w) = db_fault w"
  by (simp_all add: logged_def)

lemma delay_simps [simp]:
  "reddit_posts (delay ms w) = reddit_posts w"
  "post_snapshots (delay ms w) = post_snapshots w"
  "scraping_logs (delay ms w) = scraping_logs w"
  "subreddits (delay ms w) = subreddits w"
  "clock (delay ms w) = clock w + ms"
  "trace (delay ms w) = trace w @ [Delay ms]"
  "http_calls (delay ms w) = http_calls w"
  "http_reply (delay ms w) = http_reply w"
  "db_calls (delay ms w) = db_calls w"
  "db_fault (delay ms w) = db_fault w"
  by (simp_all add: delay_def)

lemma fetch_eq:
  "axios_get req (delay 1000 w) = (http_reply w (http_calls w), after_fetch req w)"
  by (simp add: axios_get_def delay_def after_fetch_def)

lemma createScrapingLog_eq:
  "createScrapingLog ld w =
     (case db_fault w (db_calls w) InsertLog of
        Some e \<Rightarrow> (Inl e, skipped w)
      | None \<Rightarrow> (Inr (Some [log_row_of ld (clock w)]), logged ld w))"
  by (simp add: createScrapingLog_def insert_log_def db_call_def skipped_def logged_def
      split: option.splits)

lemma updateSubredditLastScraped_eq:
  "updateSubredditLastScraped n w =
     (case db_fault w (db_calls w) UpdateSubreddit of
        Some e \<Rightarrow> (Inl e, skipped w)
      | None \<Rightarrow>
          (Inr (Some (map (\<lambda>r. r\<lparr>last_scraped_at := Some (clock w)\<rparr>)
                       (filter (\<lambda>r. sub_name r = n) (subreddits w)))),
           touched n w))"
  by (simp add: updateSubredditLastScraped_def update_subreddits_eq_def db_call_def
        skipped_def touched_def split: option.splits)

subsection \<open>The item loop\<close>

lemma save_loop_step:
  "snd (save_loop (p # ps) acc w) =
     snd (save_loop ps (acc @ pushed (fst (savePost (formatPostData p) w)))
            (snd (savePost (formatPostData p) w)))"
  "fst (save_loop (p # ps) acc w) =
     fst (save_loop ps (acc @ pushed (fst (savePost (formatPostData p) w)))
            (snd (savePost (formatPostData p) w)))"
  by (cases "savePost (formatPostData p) w"; simp split: sum.splits option.splits)+

lemma save_loop_keeps:
  assumes "\<And>w X Y Z. f (w\<lparr>reddit_posts := X, post_snapshots := Y, db_calls := Z\<rparr>) = f w"
  shows "f (snd (save_loop ps acc w)) = f w"
proof (induction ps arbitrary: acc w)
  case Nil
  show ?case by simp
next
  case (Cons p ps)
  show ?case
    by (simp only: save_loop_step Cons.IH savePost_keeps [of f, OF assms])
qed

lemmas save_loop_frame [simp] =
  save_loop_keeps [of scraping_logs, simplified]
  save_loop_keeps [of subreddits, simplified] save_loop_keeps [of clock, simplified]
  save_loop_keeps [of trace, simplified] save_loop_keeps [of http_calls, simplified]
  save_loop_keeps [of http_reply, simplified] save_loop_keeps [of db_fault, simplified]

lemma save_loop_saved:
  "fst (save_loop ps acc w) = acc @ concat (map pushed (save_outcomes ps w))"
proof (induction ps arbitrary: acc w)
  case Nil
  show ?case by simp
next
  case (Cons p ps)
  show ?case
    by (simp only: save_loop_step Cons.IH save_outcomes.simps list.map concat.simps append_assoc)
qed

lemma length_save_outcomes [simp]: "length (save_outcomes ps w) = length ps"
  by (induction ps arbitrary: w) simp_all

lemma savePost_not_null: "fst (savePost pd w) \<noteq> Inr None"
  by (simp add: savePost_def getPostById_eq updatePost_eq insert_post_eq
      split: option.splits list.splits)

lemma pushed_length: "out \<noteq> Inr None \<Longrightarrow> length (pushed out) = (if isl out then 0 else 1)"
  by (cases out rule: pushed.cases) simp_all

lemma save_outcomes_not_null: "out \<in> set (save_outcomes ps w) \<Longrightarrow> out \<noteq> Inr None"
  by (induction ps arbitrary: w) (auto simp: savePost_not_null [symmetric] savePost_not_null)

lemma length_concat_pushed:
  "(\<And>out. out \<in> set outs \<Longrightarrow> out \<noteq> Inr None) \<Longrightarrow>
   length (concat (map pushed outs)) = length (filter (\<lambda>out. \<not> isl out) outs)"
  by (induction outs) (simp_all add: pushed_length)

lemma save_loop_count:
  "length (fst (save_loop ps [] w)) = length (filter (\<lambda>out. \<not> isl out) (save_outcomes ps w))"
  using length_concat_pushed [of "save_outcomes ps w"] save_outcomes_not_null [of _ ps w]
  by (simp add: save_loop_saved)


lemma save_loop_distinct:
  assumes "distinct (map post_id (reddit_posts w))" and "engine_sound w"
  shows "distinct (map post_id (reddit_posts (snd (save_loop ps acc w))))"
  using assms
proof (induction ps arbitrary: acc w)
  case Nil
  then show ?case by simp
next
  case (Cons p ps)
  have "engine_sound (snd (savePost (formatPostData p) w))"
    using Cons.prems(2) by (simp add: engine_sound_def)
  then show ?case
    using savePost_distinct [OF Cons.prems, of "formatPostData p"]
    by (simp only: save_loop_step Cons.IH)
qed

declare save_loop.simps [simp del] save_outcomes.simps [simp del]

subsection \<open>The four ways through a scrape\<close>

lemma scrape_catch_rejected:
  "db_fault w (db_calls w) InsertLog = Some e2 \<Longrightarrow>
   scrape_catch n stype st e w = (Inl e2, skipped w)"
  by (simp add: scrape_catch_def createScrapingLog_eq)

lemma scrape_catch_logged:
  "db_fault w (db_calls w) InsertLog = None \<Longrightarrow>
   scrape_catch n stype st e w = (Inl e, logged (error_log n stype (clock w - st) e) w)"
  by (simp add: scrape_catch_def createScrapingLog_eq error_log_def)

lemma scrape_body_fetch_failed:
  "http_reply w (http_calls w) = Inl e \<Longrightarrow>
   scrape_body req stype tf n w = scrape_catch n stype (clock w) e (after_fetch req w)"
  by (simp add: scrape_body_def fetch_eq)

lemma scrape_body_touch_failed:
  assumes "http_reply w (http_calls w) = Inr children"
    and "w3 = snd (save_loop children [] (after_fetch req w))"
    and "db_fault w (db_calls w3) UpdateSubreddit = Some e"
  shows "scrape_body req stype tf n w = scrape_catch n stype (clock w) e (skipped w3)"
  using assms
  by (simp add: scrape_body_def fetch_eq split_beta updateSubredditLastScraped_eq)

lemma scrape_body_log_failed:
  assumes "http_reply w (http_calls w) = Inr children"
    and "w3 = snd (save_loop children [] (after_fetch req w))"
    and "db_fault w (db_calls w3) UpdateSubreddit = None"
    and "db_fault w (Suc (db_calls w3)) InsertLog = Some e"
  shows "scrape_body req stype tf n w = scrape_catch n stype (clock w) e (skipped (touched n w3))"
  using assms
  by (simp add: scrape_body_def fetch_eq split_beta updateSubredditLastScraped_eq
        createScrapingLog_eq)

lemma scrape_body_success:
  assumes "http_reply w (http_calls w) = Inr children"
    and "L = save_loop children [] (after_fetch req w)"
    and "db_fault w (db_calls (snd L)) UpdateSubreddit = None"
    and "db_fault w (Suc (db_calls (snd L))) InsertLog = None"
  shows "scrape_body req stype tf n w =
           (Inr \<lparr>res_subreddit = n, totalPosts = length children, newPosts = length (fst L),
                 posts = fst L, duration = 1000, res_timeframe = tf, res_error = None\<rparr>,
            logged (success_log n stype 1000 (length children) (length (fst L)))
              (touched n (snd L)))"
  using assms
  by (simp add: scrape_body_def fetch_eq split_beta updateSubredditLastScraped_eq
        createScrapingLog_eq success_log_def)

lemma scrape_catch_trace [simp]: "trace (snd (scrape_catch n stype st e w)) = trace w"
  by (cases "db_fault w (db_calls w) InsertLog")
     (simp_all add: scrape_catch_logged scrape_catch_rejected)

lemma scrape_catch_isl [simp]: "isl (fst (scrape_catch n stype st e w))"
  by (cases "db_fault w (db_calls w) InsertLog")
     (simp_all add: scrape_catch_logged scrape_catch_rejected)

text \<open>Every scrape ends in the handler or in the success branch.\<close>

lemma scrape_body_cases:
  obtains (caught) e st w' where
      "scrape_body req stype tf n w = scrape_catch n stype st e w'"
      "trace w' = trace w @ [Delay 1000, HttpGet req]"
      "db_fault w' = db_fault w" "scraping_logs w' = scraping_logs w"
      "clock w' = clock w + 1000" "st = clock w"
      "http_reply w (http_calls w) = Inl e \<or>
       (\<exists>children. http_reply w (http_calls w) = Inr children \<and>
          (\<exists>k. db_fault w k UpdateSubreddit = Some e \<or> db_fault w k InsertLog = Some e))"
  | (success) children L where
      "http_reply w (http_calls w) = Inr children"
      "L = save_loop children [] (after_fetch req w)"
      "scrape_body req stype tf n w =
         (Inr \<lparr>res_subreddit = n, totalPosts = length children, newPosts = length (fst L),
               posts = fst L, duration = 1000, res_timeframe = tf, res_error = None\<rparr>,
          logged (success_log n stype 1000 (length children) (length (fst L)))
            (touched n (snd L)))"
proof (cases "http_reply w (http_calls w)")
  case (Inl e)
  show ?thesis
    by (rule caught [OF scrape_body_fetch_failed [OF Inl]]) (simp_all add: Inl)
next
  case (Inr children)
  define L where "L = save_loop children [] (after_fetch req w)"
  show ?thesis
  proof (cases "db_fault w (db_calls (snd L)) UpdateSubreddit")
    case (Some e)
    show ?thesis
      by (rule caught [OF scrape_body_touch_failed [OF Inr refl Some [unfolded L_def]]])
         (use Some Inr in \<open>auto simp: L_def\<close>)
  next
    case None
    show ?thesis
    proof (cases "db_fault w (Suc (db_calls (snd L))) InsertLog")
      case (Some e)
      show ?thesis
        by (rule caught [OF scrape_body_log_failed
                [OF Inr refl None [unfolded L_def] Some [unfolded L_def]]])
           (use Some Inr in \<open>auto simp: L_def\<close>)
    next
      case None2: None
      show ?thesis
        by (rule success [OF Inr L_def scrape_body_success [OF Inr L_def None None2]])
    qed
  qed
qed

lemma scrape_body_trace:
  "trace (snd (scrape_body req stype tf n w)) = trace w @ [Delay 1000, HttpGet req]"
  by (cases rule: scrape_body_cases [where req = req and stype = stype and tf = tf and n = n and w = w]) simp_all

lemma scrape_body_result:
  "fst (scrape_body req stype tf n w) = Inr r \<Longrightarrow>
   res_subreddit r = n \<and> res_error r = None \<and> res_timeframe r = tf"
proof (cases rule: scrape_body_cases [where req = req and stype = stype and tf = tf and n = n and w = w])
  case (caught e st w')
  assume "fst (scrape_body req stype tf n w) = Inr r"
  then show ?thesis
    using scrape_catch_isl [of n stype st e w'] by (simp add: caught(1))
next
  case (success children L)
  assume "fst (scrape_body req stype tf n w) = Inr r"
  then show ?thesis
    by (auto simp add: success(3))
qed


text \<open>The three methods are instances of the shared shape.\<close>

lemma scrapeSubreddit_body:
  "scrapeSubreddit n limit = scrape_body (Hot n limit) ''hot'' None n"
  by (rule ext)
     (simp add: scrapeSubreddit_def scrape_body_def scrape_catch_def Let_def
      split: prod.splits sum.splits)

lemma getTopPosts_body:
  "getTopPosts n tf limit =
     scrape_body (Top n tf limit) (''top_'' @ timeframe_str tf) (Some tf) n"
  by (rule ext)
     (simp add: getTopPosts_def scrape_body_def scrape_catch_def Let_def
      split: prod.splits sum.splits)

lemma getNewPosts_body:
  "getNewPosts n limit = scrape_body (New n limit) ''new'' None n"
  by (rule ext)
     (simp add: getNewPosts_def scrape_body_def scrape_catch_def Let_def
      split: prod.splits sum.splits)

subsection \<open>The run log\<close>

lemma log_row_of_simps [simp]:
  "log_subreddit (log_row_of (error_log n stype d e) t) = n"
  "scrape_type (log_row_of (error_log n stype d e) t) = stype"
  "status (log_row_of (error_log n stype d e) t) = ''error''"
  "posts_found (log_row_of (error_log n stype d e) t) = 0"
  "posts_saved (log_row_of (error_log n stype d e) t) = 0"
  "error_message (log_row_of (error_log n stype d e) t) = string_or_null (Some (err_message e))"
  "log_subreddit (log_row_of (success_log n stype d found saved) t) = n"
  "scrape_type (log_row_of (success_log n stype d found saved) t) = stype"
  "status (log_row_of (success_log n stype d found saved) t) = ''success''"
  "posts_found (log_row_of (success_log n stype d found saved) t) = found"
  "posts_saved (log_row_of (success_log n stype d found saved) t) = saved"
  by (simp_all add: log_row_of_def error_log_def success_log_def)

lemma scrape_body_writes_one_log:
  assumes "\<forall>k. db_fault w k InsertLog = None"
  shows "writes_one_log n stype w (scrape_body req stype tf n w)"
proof (cases rule: scrape_body_cases [where req = req and stype = stype and tf = tf and n = n and w = w])
  case (caught e st w')
  have "scrape_catch n stype st e w' = (Inl e, logged (error_log n stype (clock w' - st) e) w')"
    using assms by (intro scrape_catch_logged) (simp add: caught(3))
  then show ?thesis
    by (simp add: writes_one_log_def caught(1) caught(4))
next
  case (success children L)
  show ?thesis
    by (simp add: writes_one_log_def success(3) success(2))
qed

lemma scrape_body_rethrows:
  assumes "\<forall>k. db_fault w k InsertLog = None"
  shows "rethrows_fetch_error w (scrape_body req stype tf n w)"
proof (cases "http_reply w (http_calls w)")
  case (Inl e)
  then show ?thesis
    using assms
    by (simp add: rethrows_fetch_error_def scrape_body_fetch_failed scrape_catch_logged)
next
  case (Inr children)
  then show ?thesis
    by (simp add: rethrows_fetch_error_def)
qed

lemma searchPosts_eq:
  "searchPosts n q limit w =
     (case http_reply w (http_calls w) of
        Inl e \<Rightarrow> Inl e
      | Inr children \<Rightarrow> Inr (map search_hit_of children),
      after_fetch (Search n q limit) w)"
  by (simp add: searchPosts_def fetch_eq split: sum.splits)

lemma scrape_body_isolates:
  assumes "http_reply w (http_calls w) = Inr children"
    and "\<forall>k. db_fault w k UpdateSubreddit = None"
    and "\<forall>k. db_fault w k InsertLog = None"
  shows "item_failures_isolated req children w (scrape_body req stype tf n w)"
proof -
  define L where "L = save_loop children [] (after_fetch req w)"
  have "scrape_body req stype tf n w =
           (Inr \<lparr>res_subreddit = n, totalPosts = length children, newPosts = length (fst L),
                 posts = fst L, duration = 1000, res_timeframe = tf, res_error = None\<rparr>,
            logged (success_log n stype 1000 (length children) (length (fst L)))
              (touched n (snd L)))"
    using assms by (intro scrape_body_success) (simp_all add: L_def)
  then show ?thesis
    using save_loop_count [of children "after_fetch req w"]
    by (simp add: item_failures_isolated_def L_def save_loop_saved)
qed


lemma searchPosts_rethrows: "rethrows_fetch_error w (searchPosts n q limit w)"
  by (simp add: rethrows_fetch_error_def searchPosts_eq split: sum.splits)

lemma searchPosts_logs: "scraping_logs (snd (searchPosts n q limit w)) = scraping_logs w"
  by (simp add: searchPosts_eq)

subsection \<open>The feed loops\<close>

lemma manual_loop_step:
  "manual_loop scrape tf (sub # rest) rs w =
     manual_loop scrape tf rest (rs @ [entry_of tf sub (fst (scrape sub w))])
       (after_feed (scrape sub w))"
  by (cases "scrape sub w") (simp add: entry_of_def after_feed_def split: sum.splits)

lemma cron_loop_step:
  "cron_loop scrape (sub # rest) w = cron_loop scrape rest (after_feed (scrape sub w))"
  by (cases "scrape sub w") (simp add: after_feed_def split: sum.splits)

lemma length_feed_outcomes [simp]: "length (feed_outcomes scrape subs w) = length subs"
  by (induction subs arbitrary: w) simp_all

lemma manual_loop_results:
  "fst (manual_loop scrape tf subs rs w) =
     rs @ map2 (entry_of tf) subs (feed_outcomes scrape subs w)"
proof (induction subs arbitrary: rs w)
  case Nil
  show ?case by simp
next
  case (Cons sub rest)
  show ?case
    by (simp only: manual_loop_step Cons.IH) simp
qed

lemma cron_loop_manual: "cron_loop scrape subs w = snd (manual_loop scrape tf subs rs w)"
proof (induction subs arbitrary: rs w)
  case Nil
  show ?case by simp
next
  case (Cons sub rest)
  show ?case
    by (simp only: manual_loop_step cron_loop_step Cons.IH [of _ "rs @ [entry_of tf sub (fst (scrape sub w))]"])
qed

lemma manual_loop_trace:
  assumes "\<And>sub w. trace (snd (scrape sub w)) = trace w @ [Delay 1000, HttpGet (mk sub)]"
  shows "trace (snd (manual_loop scrape tf subs rs w)) =
           trace w @ concat (map2 (\<lambda>sub out. feed_events (mk sub) out) subs
                              (feed_outcomes scrape subs w))"
proof (induction subs arbitrary: rs w)
  case Nil
  show ?case by simp
next
  case (Cons sub rest)
  have step: "trace (after_feed (scrape sub w)) =
                trace w @ feed_events (mk sub) (fst (scrape sub w))"
    using assms [of sub w] by (simp add: after_feed_def feed_events_def)
  show ?case
    by (simp only: manual_loop_step Cons.IH step) simp
qed

lemma requests_of_append [simp]: "requests_of (xs @ ys) = requests_of xs @ requests_of ys"
  by (induction xs rule: requests_of.induct) simp_all

lemma requests_of_feed_events [simp]: "requests_of (feed_events req out) = [req]"
  by (simp add: feed_events_def)

lemma requests_of_feeds:
  "length outs = length subs \<Longrightarrow>
   requests_of (concat (map2 (\<lambda>sub out. feed_events (mk sub) out) subs outs)) = map mk subs"
  by (induction subs outs rule: list_induct2') simp_all

lemma entry_names:
  assumes "\<And>sub w r. fst (scrape sub w) = Inr r \<Longrightarrow> res_subreddit r = sub"
  shows "map res_subreddit (map2 (entry_of tf) subs (feed_outcomes scrape subs w)) = subs"
proof (induction subs arbitrary: w)
  case Nil
  show ?case by simp
next
  case (Cons sub rest)
  have "res_subreddit (entry_of tf sub (fst (scrape sub w))) = sub"
    using assms [of sub w]
    by (cases "fst (scrape sub w)") (simp_all add: entry_of_def error_entry_def)
  then show ?case
    using Cons.IH by simp
qed

declare feed_outcomes.simps [simp del] manual_loop.simps [simp del] cron_loop.simps [simp del]

lemma scrapeSubreddit_trace:
  "trace (snd (scrapeSubreddit sub limit w)) = trace w @ [Delay 1000, HttpGet (Hot sub limit)]"
  by (simp add: scrapeSubreddit_body scrape_body_trace)

lemma getTopPosts_trace:
  "trace (snd (getTopPosts sub tf limit w)) = trace w @ [Delay 1000, HttpGet (Top sub tf limit)]"
  by (simp add: getTopPosts_body scrape_body_trace)

lemma getNewPosts_trace:
  "trace (snd (getNewPosts sub limit w)) = trace w @ [Delay 1000, HttpGet (New sub limit)]"
  by (simp add: getNewPosts_body scrape_body_trace)

lemma scrapeSubreddit_name:
  "fst (scrapeSubreddit sub limit w) = Inr r \<Longrightarrow> res_subreddit r = sub"
  using scrape_body_result [of "Hot sub limit" "''hot''" None sub w r]
  by (simp add: scrapeSubreddit_body)

lemma getTopPosts_name:
  "fst (getTopPosts sub tf limit w) = Inr r \<Longrightarrow> res_subreddit r = sub"
  using scrape_body_result [of "Top sub tf limit" "''top_'' @ timeframe_str tf" "Some tf" sub w r]
  by (simp add: getTopPosts_body)

lemma entry_of_literal:
  "entry_of tf =
     (\<lambda>sub out. case out of
                   Inr result \<Rightarrow> result
                 | Inl e \<Rightarrow>
                     \<lparr>res_subreddit = sub, totalPosts = 0, newPosts = 0, posts = [],
                      duration = 0, res_timeframe = tf, res_error = Some (err_message e)\<rparr>)"
  by (rule ext, rule ext) (simp add: entry_of_def error_entry_def split: sum.splits)

lemma scrapeSubreddit_no_error:
  "fst (scrapeSubreddit sub limit w) = Inr r \<Longrightarrow> res_error r = None"
  using scrape_body_result [of "Hot sub limit" "''hot''" None sub w r]
  by (simp add: scrapeSubreddit_body)

lemma getTopPosts_no_error:
  "fst (getTopPosts sub tf limit w) = Inr r \<Longrightarrow> res_error r = None"
  using scrape_body_result [of "Top sub tf limit" "''top_'' @ timeframe_str tf" "Some tf" sub w r]
  by (simp add: getTopPosts_body)

lemma feed_outcomes_no_error:
  assumes "\<And>sub w r. fst (scrape sub w) = Inr r \<Longrightarrow> res_error r = None"
  shows "list_all (\<lambda>out. case out of Inr result \<Rightarrow> res_error result = None | Inl e \<Rightarrow> True)
           (feed_outcomes scrape subs w)"
proof (induction subs arbitrary: w)
  case Nil
  show ?case by (simp add: feed_outcomes.simps)
next
  case (Cons sub rest)
  show ?case
    using assms [of sub w] Cons.IH
    by (cases "fst (scrape sub w)") (simp_all add: feed_outcomes.simps)
qed

lemma scrapeAllSubreddits_eq:
  "scrapeAllSubreddits w =
     (\<lparr>batch_total = length trackedSubreddits, batch_timeframe = None,
       results = map2 (entry_of None) trackedSubreddits
                   (feed_outcomes (\<lambda>sub. scrapeSubreddit sub 25) trackedSubreddits w)\<rparr>,
      scrapeAllSubredditsHourly w)"
  using manual_loop_results [of "\<lambda>sub. scrapeSubreddit sub 25" None trackedSubreddits "[]" w]
  by (simp add: scrapeAllSubreddits_def scrapeAllSubredditsHourly_def split_beta
      cron_loop_manual [of _ _ _ None "[]"])

lemma scrapeTopPostsAllSubreddits_eq:
  "scrapeTopPostsAllSubreddits tf w =
     (\<lparr>batch_total = length trackedSubreddits, batch_timeframe = Some tf,
       results = map2 (entry_of (Some tf)) trackedSubreddits
                   (feed_outcomes (\<lambda>sub. getTopPosts sub tf 50) trackedSubreddits w)\<rparr>,
      cron_loop (\<lambda>sub. getTopPosts sub tf 50) trackedSubreddits w)"
  using manual_loop_results [of "\<lambda>sub. getTopPosts sub tf 50" "Some tf" trackedSubreddits "[]" w]
  by (simp add: scrapeTopPostsAllSubreddits_def split_beta
      cron_loop_manual [of _ _ _ "Some tf" "[]"])

lemma hourly_trace:
  "trace (scrapeAllSubredditsHourly w) =
     trace w @ concat (map2 (\<lambda>sub out. feed_events (Hot sub 25) out) trackedSubreddits
                        (feed_outcomes (\<lambda>sub. scrapeSubreddit sub 25) trackedSubreddits w))"
  using manual_loop_trace [of "\<lambda>sub. scrapeSubreddit sub 25" "\<lambda>sub. Hot sub 25" None
      trackedSubreddits "[]" w]
  by (simp add: scrapeAllSubredditsHourly_def cron_loop_manual [of _ _ _ None "[]"]
      scrapeSubreddit_trace)

lemma top_loop_trace:
  "trace (cron_loop (\<lambda>sub. getTopPosts sub tf 50) trackedSubreddits w) =
     trace w @ concat (map2 (\<lambda>sub out. feed_events (Top sub tf 50) out) trackedSubreddits
                        (feed_outcomes (\<lambda>sub. getTopPosts sub tf 50) trackedSubreddits w))"
  using manual_loop_trace [of "\<lambda>sub. getTopPosts sub tf 50" "\<lambda>sub. Top sub tf 50" None
      trackedSubreddits "[]" w]
  by (simp add: cron_loop_manual [of _ _ _ None "[]"] getTopPosts_trace)


lemma length_tracked: "length trackedSubreddits = 9"
  by (simp add: trackedSubreddits_def)

subsection \<open>Evaluation on the sample worlds\<close>

lemma unreachable_scrape:
  assumes "http_reply w (http_calls w) = Inl e" and "db_fault w = (\<lambda>k op. None)"
  shows "scrape_body req stype tf n w =
           (Inl e, logged (error_log n stype 1000 e) (after_fetch req w))"
  using assms by (simp add: scrape_body_fetch_failed scrape_catch_logged)

lemma unreachable_outcomes:
  assumes "\<forall>k \<ge> http_calls w. http_reply w k = Inl e" and "db_fault w = (\<lambda>k op. None)"
  shows "feed_outcomes (\<lambda>sub. scrape_body (mk sub) stype tf sub) subs w = map (\<lambda>sub. Inl e) subs"
  using assms
proof (induction subs arbitrary: w)
  case Nil
  show ?case by (simp add: feed_outcomes.simps)
next
  case (Cons sub rest)
  have run: "scrape_body (mk sub) stype tf sub w =
               (Inl e, logged (error_log sub stype 1000 e) (after_fetch (mk sub) w))"
    using Cons.prems by (intro unreachable_scrape) simp_all
  have "feed_outcomes (\<lambda>sub. scrape_body (mk sub) stype tf sub) rest
          (logged (error_log sub stype 1000 e) (after_fetch (mk sub) w)) = map (\<lambda>sub. Inl e) rest"
    using Cons.prems by (intro Cons.IH) simp_all
  then show ?case
    by (simp add: run after_feed_def feed_outcomes.simps)
qed

lemma world0_outcomes:
  "feed_outcomes (\<lambda>sub. scrapeSubreddit sub 25) subs world0 = map (\<lambda>sub. Inl net_error) subs"
  unfolding scrapeSubreddit_body
  by (rule unreachable_outcomes) (simp_all add: world0_def)

lemma first_feed_up_outcomes:
  "feed_outcomes (\<lambda>sub. scrapeSubreddit sub 25) (sub # subs) first_feed_up =
     Inr \<lparr>res_subreddit = sub, totalPosts = 0, newPosts = 0, posts = [], duration = 1000,
          res_timeframe = None, res_error = None\<rparr> # map (\<lambda>sub. Inl net_error) subs"
proof -
  have run: "scrape_body (Hot sub 25) ''hot'' None sub first_feed_up =
          (Inr \<lparr>res_subreddit = sub, totalPosts = 0, newPosts = 0, posts = [], duration = 1000,
                res_timeframe = None, res_error = None\<rparr>,
           logged (success_log sub ''hot'' 1000 0 0)
             (touched sub (after_fetch (Hot sub 25) first_feed_up)))"
    using scrape_body_success [where w = first_feed_up and children = "[]" and req = "Hot sub 25"
        and n = sub and stype = "''hot''" and tf = None, OF _ refl]
    by (simp add: first_feed_up_def world0_def save_loop.simps)
  have "feed_outcomes (\<lambda>sub. scrape_body (Hot sub 25) ''hot'' None sub) subs
          (delay 2000 (logged (success_log sub ''hot'' 1000 0 0)
             (touched sub (after_fetch (Hot sub 25) first_feed_up)))) = map (\<lambda>sub. Inl net_error) subs"
    by (rule unreachable_outcomes) (simp_all add: first_feed_up_def world0_def)
  then show ?thesis
    by (simp add: scrapeSubreddit_body run after_feed_def feed_outcomes.simps)
qed

lemma feed_p1_again_loop:
  "fst (save_loop [post_p1] [] (after_fetch req feed_p1_again)) =
     [[touch (formatPostData post_p1) 1000 (new_row (formatPostData post_p1))]]"
  "reddit_posts (snd (save_loop [post_p1] [] (after_fetch req feed_p1_again))) =
     [touch (formatPostData post_p1) 1000 (new_row (formatPostData post_p1))]"
  "db_calls (snd (save_loop [post_p1] [] (after_fetch req feed_p1_again))) = 4"
  by (simp_all add: save_loop.simps save_outcomes.simps savePost_def getPostById_eq
      updatePost_eq feed_p1_again_def
      seen_p1_posts seen_p1_rest)

lemma p3_ids [simp]: "pd_id (formatPostData post_p3) = ''p3''"
  by (simp add: formatPostData_def post_p3_def post_p1_def)

lemma flaky_loop:
  "fst (save_loop [post_p1, post_p2, post_p3] [] (after_fetch req flaky_store)) =
     [[new_row (formatPostData post_p1)], [new_row (formatPostData post_p3)]]"
  "reddit_posts (snd (save_loop [post_p1, post_p2, post_p3] [] (after_fetch req flaky_store))) =
     [new_row (formatPostData post_p1), new_row (formatPostData post_p3)]"
  "db_calls (snd (save_loop [post_p1, post_p2, post_p3] [] (after_fetch req flaky_store))) = 6"
  by (simp_all add: save_loop.simps save_outcomes.simps savePost_def getPostById_eq
      insert_post_eq flaky_store_def world0_def)

lemma flaky_no_touch_loop:
  "fst (save_loop [post_p1, post_p2, post_p3] [] (after_fetch req flaky_store_no_touch)) =
     [[new_row (formatPostData post_p1)], [new_row (formatPostData post_p3)]]"
  "reddit_posts (snd (save_loop [post_p1, post_p2, post_p3] [] (after_fetch req flaky_store_no_touch))) =
     [new_row (formatPostData post_p1), new_row (formatPostData post_p3)]"
  "db_calls (snd (save_loop [post_p1, post_p2, post_p3] [] (after_fetch req flaky_store_no_touch))) = 6"
  by (simp_all add: save_loop.simps save_outcomes.simps savePost_def getPostById_eq
      insert_post_eq flaky_store_no_touch_def world0_def)


lemma flaky_outcomes:
  "map isl (save_outcomes [post_p1, post_p2, post_p3] (after_fetch req flaky_store)) =
     [False, True, False]"
  by (simp add: save_loop.simps save_outcomes.simps savePost_def getPostById_eq
      insert_post_eq flaky_store_def world0_def)

lemma flaky_run:
  "scrapeSubreddit ''SaaS'' 25 flaky_store =
     (Inr \<lparr>res_subreddit = ''SaaS'', totalPosts = 3, newPosts = 2,
           posts = [[new_row (formatPostData post_p1)], [new_row (formatPostData post_p3)]],
           duration = 1000, res_timeframe = None, res_error = None\<rparr>,
      logged (success_log ''SaaS'' ''hot'' 1000 3 2)
        (touched ''SaaS''
           (snd (save_loop [post_p1, post_p2, post_p3] [] (after_fetch (Hot ''SaaS'' 25) flaky_store)))))"
proof -
  have h: "http_reply flaky_store (http_calls flaky_store) = Inr [post_p1, post_p2, post_p3]"
    "db_fault flaky_store 6 UpdateSubreddit = None" "db_fault flaky_store 7 InsertLog = None"
    by (simp_all add: flaky_store_def world0_def)
  show ?thesis
    unfolding scrapeSubreddit_body
    using scrape_body_success [OF h(1) refl, where req = "Hot ''SaaS'' 25" and n = "''SaaS''"
        and stype = "''hot''" and tf = None] h(2,3)
    by (simp add: flaky_loop numeral_3_eq_3 numeral_2_eq_2)
qed

lemma flaky_no_touch_run:
  "scrapeSubreddit ''SaaS'' 25 flaky_store_no_touch =
     (Inl db_timeout,
      logged (error_log ''SaaS'' ''hot'' 1000 db_timeout)
        (skipped (snd (save_loop [post_p1, post_p2, post_p3] []
                         (after_fetch (Hot ''SaaS'' 25) flaky_store_no_touch)))))"
proof -
  have h: "http_reply flaky_store_no_touch (http_calls flaky_store_no_touch) =
             Inr [post_p1, post_p2, post_p3]"
    "db_fault flaky_store_no_touch 6 UpdateSubreddit = Some db_timeout"
    "db_fault flaky_store_no_touch 7 InsertLog = None"
    "clock flaky_store_no_touch = 0"
    by (simp_all add: flaky_store_no_touch_def world0_def)
  have "scrape_body (Hot ''SaaS'' 25) ''hot'' None ''SaaS'' flaky_store_no_touch =
      scrape_catch ''SaaS'' ''hot'' (clock flaky_store_no_touch) db_timeout
        (skipped (snd (save_loop [post_p1, post_p2, post_p3] []
                         (after_fetch (Hot ''SaaS'' 25) flaky_store_no_touch))))"
    by (rule scrape_body_touch_failed [OF h(1) refl]) (simp add: flaky_no_touch_loop h(2))
  then show ?thesis
    by (simp add: scrapeSubreddit_body scrape_catch_logged flaky_no_touch_loop h(3,4))
qed

lemma feed_p1_again_run:
  "scrapeSubreddit ''SaaS'' 25 feed_p1_again =
     (Inr \<lparr>res_subreddit = ''SaaS'', totalPosts = 1, newPosts = 1,
           posts = [[touch (formatPostData post_p1) 1000 (new_row (formatPostData post_p1))]],
           duration = 1000, res_timeframe = None, res_error = None\<rparr>,
      logged (success_log ''SaaS'' ''hot'' 1000 1 1)
        (touched ''SaaS''
           (snd (save_loop [post_p1] [] (after_fetch (Hot ''SaaS'' 25) feed_p1_again)))))"
proof -
  have h: "http_reply feed_p1_again (http_calls feed_p1_again) = Inr [post_p1]"
    "db_fault feed_p1_again 4 UpdateSubreddit = None" "db_fault feed_p1_again 5 InsertLog = None"
    by (simp_all add: feed_p1_again_def seen_p1_rest)
  show ?thesis
    unfolding scrapeSubreddit_body
    using scrape_body_success [OF h(1) refl, where req = "Hot ''SaaS'' 25" and n = "''SaaS''"
        and stype = "''hot''" and tf = None] h(2,3)
    by (simp add: feed_p1_again_loop)
qed

lemma world0_run:
  "scrapeSubreddit ''SaaS'' 25 world0 =
     (Inl net_error, logged (error_log ''SaaS'' ''hot'' 1000 net_error)
                       (after_fetch (Hot ''SaaS'' 25) world0))"
  unfolding scrapeSubreddit_body
  by (rule unreachable_scrape) (simp_all add: world0_def)

section \<open>Claims\<close>

text \<open>
  C1. In a store with at most one row per id, ingesting an item whose id is in the store
  updates the row (\<open>score\<close>, \<open>num_comments\<close>, \<open>upvote_ratio\<close>, \<open>selftext\<close>,
  \<open>last_updated_at\<close>) and, when the store accepts the lookup and the update, appends
  exactly one Snapshot: the updated score, number of comments and upvote ratio of that
  item, captured at the time of the update.  An ingestion that creates the item appends
  no Snapshot, and neither does one that throws.  The Snapshot is appended by the
  store's side of the update (\<open>update_posts_eq\<close>), which is modelled from the
  specification.
\<close>

theorem savePost_update_appends_one_snapshot:
  assumes "distinct (map post_id (reddit_posts w))" and "engine_sound w"
  shows
    "(\<forall>r. r \<in> set (reddit_posts w) \<and> post_id r = pd_id pd \<and>
          db_fault w (db_calls w) SelectPost = None \<and>
          db_fault w (Suc (db_calls w)) UpdatePost = None \<longrightarrow>
          reddit_posts (snd (savePost pd w)) =
            map (\<lambda>x. if post_id x = pd_id pd
                      then x\<lparr>score := pd_score pd,
                        num_comments := pd_num_comments pd,
                        upvote_ratio := (case pd_upvote_ratio pd of
                                           Missing \<Rightarrow> upvote_ratio x
                                         | Null \<Rightarrow> None
                                         | Given v \<Rightarrow> Some v),
                        selftext := pd_selftext pd,
                        last_updated_at := Some (clock w)\<rparr>
                      else x) (reddit_posts w) \<and>
          post_snapshots (snd (savePost pd w)) =
            post_snapshots w @
            [\<lparr>snap_post_id = pd_id pd,
              snap_score = pd_score pd,
              snap_num_comments = pd_num_comments pd,
              snap_upvote_ratio = (case pd_upvote_ratio pd of
                                     Missing \<Rightarrow> upvote_ratio r
                                   | Null \<Rightarrow> None
                                   | Given v \<Rightarrow> Some v),
              snapshot_at = clock w\<rparr>]) \<and>
     (pd_id pd \<notin> post_id ` set (reddit_posts w) \<longrightarrow>
        post_snapshots (snd (savePost pd w)) = post_snapshots w) \<and>
     (isl (fst (savePost pd w)) \<longrightarrow>
        post_snapshots (snd (savePost pd w)) = post_snapshots w)"
proof (intro conjI allI impI)
  fix r
  assume h: "r \<in> set (reddit_posts w) \<and> post_id r = pd_id pd \<and>
          db_fault w (db_calls w) SelectPost = None \<and>
          db_fault w (Suc (db_calls w)) UpdatePost = None"
  have run: "savePost pd w =
           (Inr (Some [touch pd (clock w) r]),
            (skipped (skipped w))
              \<lparr>reddit_posts :=
                 map (\<lambda>x. if post_id x = pd_id pd then touch pd (clock w) x else x)
                   (reddit_posts w),
               post_snapshots :=
                 post_snapshots w @ [snapshot_of (clock w) (touch pd (clock w) r)]\<rparr>)"
    using h by (intro savePost_updates [OF assms]) simp_all
  show "reddit_posts (snd (savePost pd w)) =
            map (\<lambda>x. if post_id x = pd_id pd
                      then x\<lparr>score := pd_score pd,
                        num_comments := pd_num_comments pd,
                        upvote_ratio := (case pd_upvote_ratio pd of
                                           Missing \<Rightarrow> upvote_ratio x
                                         | Null \<Rightarrow> None
                                         | Given v \<Rightarrow> Some v),
                        selftext := pd_selftext pd,
                        last_updated_at := Some (clock w)\<rparr>
                      else x) (reddit_posts w)"
    by (simp add: run touch_def)
  show "post_snapshots (snd (savePost pd w)) =
            post_snapshots w @
            [\<lparr>snap_post_id = pd_id pd,
              snap_score = pd_score pd,
              snap_num_comments = pd_num_comments pd,
              snap_upvote_ratio = (case pd_upvote_ratio pd of
                                     Missing \<Rightarrow> upvote_ratio r
                                   | Null \<Rightarrow> None
                                   | Given v \<Rightarrow> Some v),
              snapshot_at = clock w\<rparr>]"
    using h by (simp add: run touch_def snapshot_of_def)
next
  assume "pd_id pd \<notin> post_id ` set (reddit_posts w)"
  then show "post_snapshots (snd (savePost pd w)) = post_snapshots w"
    by (intro savePost_snapshots_kept [OF assms]) simp
next
  assume "isl (fst (savePost pd w))"
  then show "post_snapshots (snd (savePost pd w)) = post_snapshots w"
    by (intro savePost_snapshots_kept [OF assms]) simp
qed

text \<open>
  The scenario of the specification: \<open>p1\<close> created at score 10 with two comments, no
  Snapshot; \<open>p1\<close> fetched again at score 15 with three comments, the row updated and
  one Snapshot with these values.
\<close>

theorem savePost_update_appends_one_snapshot_witness:
  "distinct (map post_id (reddit_posts seen_p1)) \<and> engine_sound seen_p1 \<and>
   map post_id (reddit_posts seen_p1) = [''p1''] \<and>
   map score (reddit_posts seen_p1) = [10] \<and>
   post_snapshots world0 = [] \<and>
   post_snapshots seen_p1 = [] \<and>
   map score (reddit_posts (snd (savePost (formatPostData post_p1_later) seen_p1))) = [15] \<and>
   map num_comments (reddit_posts (snd (savePost (formatPostData post_p1_later) seen_p1))) =
     [3] \<and>
   post_snapshots (snd (savePost (formatPostData post_p1_later) seen_p1)) =
     [\<lparr>snap_post_id = ''p1'', snap_score = 15, snap_num_comments = 3,
       snap_upvote_ratio = Some 1, snapshot_at = 0\<rparr>]"
proof -
  have inv: "distinct (map post_id (reddit_posts seen_p1))"
    by (simp add: seen_p1_posts)
  have row: "new_row (formatPostData post_p1) \<in> set (reddit_posts seen_p1) \<and>
      post_id (new_row (formatPostData post_p1)) = pd_id (formatPostData post_p1_later) \<and>
      db_fault seen_p1 (db_calls seen_p1) SelectPost = None \<and>
      db_fault seen_p1 (Suc (db_calls seen_p1)) UpdatePost = None"
    by (simp add: seen_p1_posts seen_p1_rest)
  have "reddit_posts (snd (savePost (formatPostData post_p1_later) seen_p1)) =
      map (\<lambda>x. if post_id x = pd_id (formatPostData post_p1_later)
                then x\<lparr>score := pd_score (formatPostData post_p1_later),
                       num_comments := pd_num_comments (formatPostData post_p1_later),
                       upvote_ratio :=
                         (case pd_upvote_ratio (formatPostData post_p1_later) of
                            Missing \<Rightarrow> upvote_ratio x
                          | Null \<Rightarrow> None
                          | Given v \<Rightarrow> Some v),
                       selftext := pd_selftext (formatPostData post_p1_later),
                       last_updated_at := Some (clock seen_p1)\<rparr>
                else x) (reddit_posts seen_p1) \<and>
    post_snapshots (snd (savePost (formatPostData post_p1_later) seen_p1)) =
      post_snapshots seen_p1 @
      [\<lparr>snap_post_id = pd_id (formatPostData post_p1_later),
        snap_score = pd_score (formatPostData post_p1_later),
        snap_num_comments = pd_num_comments (formatPostData post_p1_later),
        snap_upvote_ratio =
          (case pd_upvote_ratio (formatPostData post_p1_later) of
             Missing \<Rightarrow> upvote_ratio (new_row (formatPostData post_p1))
           | Null \<Rightarrow> None
           | Given v \<Rightarrow> Some v),
        snapshot_at = clock seen_p1\<rparr>]"
    using savePost_update_appends_one_snapshot
      [OF inv seen_p1_sound, of "formatPostData post_p1_later"] row
    by blast
  then show ?thesis
    by (simp add: inv seen_p1_sound seen_p1_posts seen_p1_rest)
       (simp add: world0_def new_row_def formatPostData_def post_p1_def post_p1_later_def)
qed

text \<open>
  C2. A scrape over \<open>N\<close> fetched items with no persistence failure returns
  \<open>totalPosts = N\<close>, and \<open>newPosts\<close> is claimed to count only the items whose id the
  store did not know.  The loop pushes every truthy \<open>saved\<close>, and \<open>savePost\<close> returns
  the updated rows for a known id, so a known item is counted and listed as well.
  Evaluated on the store that already holds \<open>p1\<close>, with a feed that returns \<open>p1\<close>
  again: one item found, \<open>newPosts = 1\<close>, and the updated row is in \<open>posts\<close>.
\<close>

theorem scrape_counts_a_known_item_as_new:
  "map post_id (reddit_posts feed_p1_again) = [''p1''] \<and>
   http_reply feed_p1_again (http_calls feed_p1_again) = Inr [post_p1] \<and>
   map_sum id (\<lambda>r. (totalPosts r, newPosts r, posts r))
     (fst (scrapeSubreddit ''SaaS'' 25 feed_p1_again)) =
     Inr (1, 1, [[touch (formatPostData post_p1) 1000 (new_row (formatPostData post_p1))]])"
  by (simp add: feed_p1_again_run) (simp add: feed_p1_again_def seen_p1_posts)

text \<open>
  C3 (amended).  Provided the storage engine accepts the insert into \<open>scraping_logs\<close>,
  every call of \<open>scrapeSubreddit\<close>, \<open>getTopPosts\<close> and \<open>getNewPosts\<close> appends exactly
  one row there, whichever way the call ends: a \<open>success\<close> row carrying the counts of
  the returned result, or an \<open>error\<close> row with \<open>posts_found = 0\<close>, \<open>posts_saved = 0\<close>
  and the message of the error that the call throws (stored as \<open>null\<close> when that message
  is empty).  An error raised by the fetch is the error thrown to the caller.
  \<open>searchPosts\<close> rethrows the fetch error too, but writes no row at all.
\<close>

theorem scrape_writes_one_log:
  assumes "\<forall>k. db_fault w k InsertLog = None"
  shows "writes_one_log n ''hot'' w (scrapeSubreddit n limit w) \<and>
         rethrows_fetch_error w (scrapeSubreddit n limit w) \<and>
         writes_one_log n (''top_'' @ timeframe_str tf) w (getTopPosts n tf limit w) \<and>
         rethrows_fetch_error w (getTopPosts n tf limit w) \<and>
         writes_one_log n ''new'' w (getNewPosts n limit w) \<and>
         rethrows_fetch_error w (getNewPosts n limit w) \<and>
         scraping_logs (snd (searchPosts n q limit w)) = scraping_logs w \<and>
         rethrows_fetch_error w (searchPosts n q limit w)"
  unfolding scrapeSubreddit_body getTopPosts_body getNewPosts_body
  by (intro conjI scrape_body_writes_one_log scrape_body_rethrows assms
      searchPosts_rethrows searchPosts_logs)

text \<open>A scrape of an unreachable feed on the empty store: one \<open>error\<close> row, error rethrown.\<close>

theorem scrape_writes_one_log_witness:
  "(\<forall>k. db_fault world0 k InsertLog = None) \<and>
   http_reply world0 (http_calls world0) = Inl net_error \<and>
   writes_one_log ''SaaS'' ''hot'' world0 (scrapeSubreddit ''SaaS'' 25 world0) \<and>
   fst (scrapeSubreddit ''SaaS'' 25 world0) = Inl net_error \<and>
   map status (scraping_logs (snd (scrapeSubreddit ''SaaS'' 25 world0))) = [''error''] \<and>
   map posts_found (scraping_logs (snd (scrapeSubreddit ''SaaS'' 25 world0))) = [0] \<and>
   map posts_saved (scraping_logs (snd (scrapeSubreddit ''SaaS'' 25 world0))) = [0] \<and>
   map error_message (scraping_logs (snd (scrapeSubreddit ''SaaS'' 25 world0))) =
     [Some ''Network Error'']"
proof -
  have h: "\<forall>k. db_fault world0 k InsertLog = None"
    by (simp add: world0_def)
  have "scraping_logs world0 = []" "http_reply world0 (http_calls world0) = Inl net_error"
    by (simp_all add: world0_def)
  then show ?thesis
    using scrape_writes_one_log [OF h, of "''SaaS''" 25] h
    by (simp add: world0_run string_or_null_def net_error_def)
qed

text \<open>
  As stated, with the search mode included, the claim fails: a search whose fetch
  succeeds leaves \<open>scraping_logs\<close> empty.
\<close>

theorem search_writes_no_log_counterexample:
  "fst (searchPosts ''SaaS'' ''pricing'' 25 feed_p1_again) = Inr [search_hit_of post_p1] \<and>
   scraping_logs feed_p1_again = [] \<and>
   scraping_logs (snd (searchPosts ''SaaS'' ''pricing'' 25 feed_p1_again)) = []"
  by (simp add: searchPosts_eq) (simp add: feed_p1_again_def seen_p1_rest)

text \<open>
  C4. \<open>scrapeAllSubreddits\<close> and \<open>scrapeTopPostsAllSubreddits\<close> have no exceptional
  exit: whatever the feeds and the storage engine do, they return a result with exactly
  one entry per tracked subreddit, in order.  The entry of a subreddit whose scrape
  returned is the result of that scrape; the entry of a subreddit whose scrape threw
  names the subreddit, has zero posts found and saved, an empty list of posts, duration
  zero and the message of the thrown error in \<open>error\<close>; the subreddits after it are
  still scraped.
\<close>

theorem batch_has_one_outcome_per_feed:
  "results (fst (scrapeAllSubreddits w)) =
     map2 (\<lambda>sub out. case out of
                        Inr result \<Rightarrow> result
                      | Inl e \<Rightarrow>
                          \<lparr>res_subreddit = sub, totalPosts = 0, newPosts = 0, posts = [],
                           duration = 0, res_timeframe = None,
                           res_error = Some (err_message e)\<rparr>)
       trackedSubreddits
       (feed_outcomes (\<lambda>sub. scrapeSubreddit sub 25) trackedSubreddits w) \<and>
   length (results (fst (scrapeAllSubreddits w))) = 9 \<and>
   batch_total (fst (scrapeAllSubreddits w)) = 9 \<and>
   map res_subreddit (results (fst (scrapeAllSubreddits w))) = trackedSubreddits \<and>
   results (fst (scrapeTopPostsAllSubreddits tf w)) =
     map2 (\<lambda>sub out. case out of
                        Inr result \<Rightarrow> result
                      | Inl e \<Rightarrow>
                          \<lparr>res_subreddit = sub, totalPosts = 0, newPosts = 0, posts = [],
                           duration = 0, res_timeframe = Some tf,
                           res_error = Some (err_message e)\<rparr>)
       trackedSubreddits
       (feed_outcomes (\<lambda>sub. getTopPosts sub tf 50) trackedSubreddits w) \<and>
   length (results (fst (scrapeTopPostsAllSubreddits tf w))) = 9 \<and>
   batch_total (fst (scrapeTopPostsAllSubreddits tf w)) = 9 \<and>
   map res_subreddit (results (fst (scrapeTopPostsAllSubreddits tf w))) = trackedSubreddits \<and>
   list_all (\<lambda>out. case out of Inr result \<Rightarrow> res_error result = None | Inl e \<Rightarrow> True)
     (feed_outcomes (\<lambda>sub. scrapeSubreddit sub 25) trackedSubreddits w) \<and>
   list_all (\<lambda>out. case out of Inr result \<Rightarrow> res_error result = None | Inl e \<Rightarrow> True)
     (feed_outcomes (\<lambda>sub. getTopPosts sub tf 50) trackedSubreddits w)"
  using entry_names [of "\<lambda>sub. scrapeSubreddit sub 25" None trackedSubreddits w]
    entry_names [of "\<lambda>sub. getTopPosts sub tf 50" "Some tf" trackedSubreddits w]
    feed_outcomes_no_error [of "\<lambda>sub. scrapeSubreddit sub 25" trackedSubreddits w]
    feed_outcomes_no_error [of "\<lambda>sub. getTopPosts sub tf 50" trackedSubreddits w]
  by (simp add: scrapeAllSubreddits_eq scrapeTopPostsAllSubreddits_eq length_tracked
      scrapeSubreddit_name getTopPosts_name scrapeSubreddit_no_error getTopPosts_no_error
      entry_of_literal)

text \<open>
  The batch in which every feed fails still returns nine entries, each the error entry
  of its subreddit; and in the batch whose first feed answers with an empty listing the
  first entry is that scrape's result and the other eight are error entries.
\<close>

theorem batch_has_one_outcome_per_feed_witness:
  "results (fst (scrapeAllSubreddits world0)) =
     map (\<lambda>sub. \<lparr>res_subreddit = sub, totalPosts = 0, newPosts = 0, posts = [],
                  duration = 0, res_timeframe = None,
                  res_error = Some ''Network Error''\<rparr>)
       [''B2BSaas'', ''Business_Ideas'', ''Entrepreneur'', ''indiehackers'', ''Saas'',
        ''SaaSMarketing'', ''SaaS'', ''Startup_Ideas'', ''microsaas''] \<and>
   length (results (fst (scrapeAllSubreddits world0))) = 9 \<and>
   results (fst (scrapeAllSubreddits first_feed_up)) =
     \<lparr>res_subreddit = ''B2BSaas'', totalPosts = 0, newPosts = 0, posts = [],
      duration = 1000, res_timeframe = None, res_error = None\<rparr> #
     map (\<lambda>sub. \<lparr>res_subreddit = sub, totalPosts = 0, newPosts = 0, posts = [],
                  duration = 0, res_timeframe = None,
                  res_error = Some ''Network Error''\<rparr>)
       [''Business_Ideas'', ''Entrepreneur'', ''indiehackers'', ''Saas'',
        ''SaaSMarketing'', ''SaaS'', ''Startup_Ideas'', ''microsaas'']"
proof -
  have all_down: "results (fst (scrapeAllSubreddits world0)) =
     map2 (\<lambda>sub out. case out of
                        Inr result \<Rightarrow> result
                      | Inl e \<Rightarrow>
                          \<lparr>res_subreddit = sub, totalPosts = 0, newPosts = 0, posts = [],
                           duration = 0, res_timeframe = None,
                           res_error = Some (err_message e)\<rparr>)
       trackedSubreddits
       (feed_outcomes (\<lambda>sub. scrapeSubreddit sub 25) trackedSubreddits world0)"
    and len: "length (results (fst (scrapeAllSubreddits world0))) = 9"
    using batch_has_one_outcome_per_feed [of world0 Week] by blast+
  have one_up: "results (fst (scrapeAllSubreddits first_feed_up)) =
     map2 (\<lambda>sub out. case out of
                        Inr result \<Rightarrow> result
                      | Inl e \<Rightarrow>
                          \<lparr>res_subreddit = sub, totalPosts = 0, newPosts = 0, posts = [],
                           duration = 0, res_timeframe = None,
                           res_error = Some (err_message e)\<rparr>)
       trackedSubreddits
       (feed_outcomes (\<lambda>sub. scrapeSubreddit sub 25) trackedSubreddits first_feed_up)"
    using batch_has_one_outcome_per_feed [of first_feed_up Week] by blast
  show ?thesis
    by (simp add: all_down len one_up world0_outcomes first_feed_up_outcomes
        trackedSubreddits_def net_error_def)
qed

text \<open>
  C5 (amended).  When the fetch succeeds and the storage engine accepts the update of
  \<open>subreddits\<close> and the insert into \<open>scraping_logs\<close>, a scrape returns normally whatever
  happens to the single items: each item gets its own \<open>savePost\<close> call, the items whose
  call threw are left out, \<open>totalPosts\<close> is the number of items fetched, \<open>newPosts\<close>
  the number of items whose call did not throw, and the one row written to
  \<open>scraping_logs\<close> has status \<open>success\<close> and these two counts.
\<close>

theorem item_failure_is_skipped:
  assumes "http_reply w (http_calls w) = Inr children"
    and "\<forall>k. db_fault w k UpdateSubreddit = None"
    and "\<forall>k. db_fault w k InsertLog = None"
  shows "item_failures_isolated (Hot n limit) children w (scrapeSubreddit n limit w) \<and>
         item_failures_isolated (Top n tf limit) children w (getTopPosts n tf limit w) \<and>
         item_failures_isolated (New n limit) children w (getNewPosts n limit w)"
  using assms
  by (simp add: scrapeSubreddit_body getTopPosts_body getNewPosts_body scrape_body_isolates)

text \<open>
  Three items fetched, the insert of the second rejected: the first and the third are
  stored, and the run is logged as a success with three found and two saved.
\<close>

theorem item_failure_is_skipped_witness:
  "http_reply flaky_store (http_calls flaky_store) = Inr [post_p1, post_p2, post_p3] \<and>
   (\<forall>k. db_fault flaky_store k UpdateSubreddit = None) \<and>
   (\<forall>k. db_fault flaky_store k InsertLog = None) \<and>
   item_failures_isolated (Hot ''SaaS'' 25) [post_p1, post_p2, post_p3] flaky_store
     (scrapeSubreddit ''SaaS'' 25 flaky_store) \<and>
   map isl (save_outcomes [post_p1, post_p2, post_p3] (after_fetch (Hot ''SaaS'' 25) flaky_store)) =
     [False, True, False] \<and>
   map post_id (reddit_posts (snd (scrapeSubreddit ''SaaS'' 25 flaky_store))) = [''p1'', ''p3''] \<and>
   map status (scraping_logs (snd (scrapeSubreddit ''SaaS'' 25 flaky_store))) = [''success''] \<and>
   map posts_found (scraping_logs (snd (scrapeSubreddit ''SaaS'' 25 flaky_store))) = [3] \<and>
   map posts_saved (scraping_logs (snd (scrapeSubreddit ''SaaS'' 25 flaky_store))) = [2]"
proof -
  have h: "http_reply flaky_store (http_calls flaky_store) = Inr [post_p1, post_p2, post_p3]"
    "\<forall>k. db_fault flaky_store k UpdateSubreddit = None"
    "\<forall>k. db_fault flaky_store k InsertLog = None"
    "scraping_logs flaky_store = []"
    by (simp_all add: flaky_store_def world0_def)
  show ?thesis
    using item_failure_is_skipped [OF h(1-3), of "''SaaS''" 25] h
    by (simp add: flaky_outcomes flaky_run flaky_loop)
qed

text \<open>
  As stated, for every scrape whose fetch succeeds, the claim fails: with the update of
  \<open>subreddits\<close> rejected as well, the same run stores the same two items, throws, and is
  logged as an \<open>error\<close> with zero found and zero saved.
\<close>

theorem touch_failure_logs_error_counterexample:
  "http_reply flaky_store_no_touch (http_calls flaky_store_no_touch) =
     Inr [post_p1, post_p2, post_p3] \<and>
   fst (scrapeSubreddit ''SaaS'' 25 flaky_store_no_touch) = Inl db_timeout \<and>
   map post_id (reddit_posts (snd (scrapeSubreddit ''SaaS'' 25 flaky_store_no_touch))) =
     [''p1'', ''p3''] \<and>
   map status (scraping_logs (snd (scrapeSubreddit ''SaaS'' 25 flaky_store_no_touch))) = [''error''] \<and>
   map posts_found (scraping_logs (snd (scrapeSubreddit ''SaaS'' 25 flaky_store_no_touch))) = [0] \<and>
   map posts_saved (scraping_logs (snd (scrapeSubreddit ''SaaS'' 25 flaky_store_no_touch))) = [0]"
  by (simp add: flaky_no_touch_run flaky_no_touch_loop)
     (simp add: flaky_store_no_touch_def world0_def)


text \<open>
  C6 (as amended). Ingesting the same raw item a second time, after a first ingestion
  that succeeded, into a store with at most one row per id: the second call throws
  exactly when the store rejects its lookup or its update, and then changes no row and
  appends no Snapshot; otherwise it leaves every row as it was except that it sets
  \<open>last_updated_at\<close> of the item's row to the time of the call, and it appends
  exactly one Snapshot, of the unchanged score, number of comments and upvote ratio of
  that row, although no mutable field differs.  The Snapshot is appended by the store's
  side of the update (\<open>update_posts_eq\<close>), which is modelled from the specification;
  the rows are written by \<open>updatePost\<close>.
\<close>

theorem reingest_changes_only_last_updated_at:
  assumes inv: "distinct (map post_id (reddit_posts w))" and sound: "engine_sound w"
    and first: "savePost (formatPostData post) w = (Inr d1, w1)"
  shows "reddit_posts (snd (savePost (formatPostData post) w1)) =
           (if isl (fst (savePost (formatPostData post) w1)) then reddit_posts w1
            else map (\<lambda>r. if post_id r = raw_id post
                          then r\<lparr>last_updated_at := Some (clock w1)\<rparr> else r)
                   (reddit_posts w1))
       \<and> post_snapshots (snd (savePost (formatPostData post) w1)) =
           (if isl (fst (savePost (formatPostData post) w1)) then post_snapshots w1
            else post_snapshots w1 @
                 map (\<lambda>r. \<lparr>snap_post_id = post_id r, snap_score = score r,
                                snap_num_comments = num_comments r,
                                snap_upvote_ratio = upvote_ratio r,
                                snapshot_at = clock w1\<rparr>)
                      (filter (\<lambda>r. post_id r = raw_id post) (reddit_posts w1)))
       \<and> length (filter (\<lambda>r. post_id r = raw_id post) (reddit_posts w1)) = 1
       \<and> (isl (fst (savePost (formatPostData post) w1)) \<longleftrightarrow>
            db_fault w1 (db_calls w1) SelectPost \<noteq> None \<or>
            db_fault w1 (Suc (db_calls w1)) UpdatePost \<noteq> None)"
proof -
  let ?pd = "formatPostData post"
  have id: "pd_id ?pd = raw_id post"
    by (simp add: formatPostData_def)
  have w1: "w1 = snd (savePost ?pd w)" and ok: "\<not> isl (fst (savePost ?pd w))"
    using first by simp_all
  have inv1: "distinct (map post_id (reddit_posts w1))"
    unfolding w1 by (rule savePost_distinct [OF inv sound])
  have sound1: "engine_sound w1"
    using sound by (simp add: w1 engine_sound_def)
  have known1: "pd_id ?pd \<in> post_id ` set (reddit_posts w1)"
    and synced1: "\<forall>r \<in> set (reddit_posts w1). post_id r = pd_id ?pd \<longrightarrow> synced ?pd r"
    using savePost_synced [OF inv sound ok] unfolding w1 by blast+
  obtain r where r: "r \<in> set (reddit_posts w1)" "post_id r = pd_id ?pd"
    using known1 by (auto simp: image_iff)
  have only: "filter (\<lambda>x. post_id x = pd_id ?pd) (reddit_posts w1) = [r]"
    using filter_the_row [OF inv1 r(1)] by (simp add: r(2))
  have same: "snapshot_of (clock w1) (touch ?pd (clock w1) r) = snapshot_of (clock w1) r"
    using synced1 r by (intro snapshot_of_synced) blast
  have run: "savePost ?pd w1 =
           (case db_fault w1 (db_calls w1) SelectPost of
              Some e \<Rightarrow> (Inl e, skipped w1)
            | None \<Rightarrow>
                (case db_fault w1 (Suc (db_calls w1)) UpdatePost of
                   Some e \<Rightarrow> (Inl e, skipped (skipped w1))
                 | None \<Rightarrow>
                     (Inr (Some [touch ?pd (clock w1) r]),
                      (skipped (skipped w1))
                        \<lparr>reddit_posts :=
                           map (\<lambda>x. if post_id x = pd_id ?pd
                                     then x\<lparr>last_updated_at := Some (clock w1)\<rparr> else x)
                             (reddit_posts w1),
                         post_snapshots :=
                           post_snapshots w1 @ [snapshot_of (clock w1) r]\<rparr>)))"
    by (simp add: savePost_known_eq [OF inv1 sound1 known1] updatePost_skipped only same
        retouch [OF synced1] split: option.splits)
  have only': "filter (\<lambda>x. post_id x = raw_id post) (reddit_posts w1) = [r]"
    using only by (simp only: id)
  show ?thesis
    unfolding only'
    by (simp add: run id snapshot_of_def split: option.splits)
qed

text \<open>\<open>p1\<close> ingested twice into the empty store, at time 0.\<close>

theorem reingest_changes_only_last_updated_at_witness:
  "distinct (map post_id (reddit_posts world0)) \<and> engine_sound world0 \<and>
   savePost (formatPostData post_p1) world0 =
     (Inr (Some [new_row (formatPostData post_p1)]), seen_p1) \<and>
   \<not> isl (fst (savePost (formatPostData post_p1) seen_p1)) \<and>
   reddit_posts (snd (savePost (formatPostData post_p1) seen_p1)) =
     [(new_row (formatPostData post_p1))\<lparr>last_updated_at := Some 0\<rparr>] \<and>
   post_snapshots seen_p1 = [] \<and>
   post_snapshots (snd (savePost (formatPostData post_p1) seen_p1)) =
     [\<lparr>snap_post_id = ''p1'', snap_score = 10, snap_num_comments = 2,
       snap_upvote_ratio = Some 1, snapshot_at = 0\<rparr>]"
proof -
  have inv: "distinct (map post_id (reddit_posts world0))"
    by (simp add: world0_def)
  have accepted: "db_fault seen_p1 (db_calls seen_p1) SelectPost = None"
    "db_fault seen_p1 (Suc (db_calls seen_p1)) UpdatePost = None"
    by (simp_all add: seen_p1_rest)
  have ok: "\<not> isl (fst (savePost (formatPostData post_p1) seen_p1))"
    using reingest_changes_only_last_updated_at [OF inv world0_sound first_ingest_p1] accepted
    by blast
  have id: "raw_id post_p1 = ''p1''"
    by (simp add: post_p1_def)
  show ?thesis
    using reingest_changes_only_last_updated_at [OF inv world0_sound first_ingest_p1] ok
    by (simp add: inv world0_sound first_ingest_p1 seen_p1_posts seen_p1_rest id)
       (simp add: new_row_def formatPostData_def post_p1_def world0_def)
qed

text \<open>
  As stated, with the same Item state after both calls, the claim fails: the second call
  changes the row.
\<close>

theorem reingest_same_state_counterexample:
  "reddit_posts (snd (savePost (formatPostData post_p1)
                        (snd (savePost (formatPostData post_p1) world0)))) \<noteq>
   reddit_posts (snd (savePost (formatPostData post_p1) world0))"
proof -
  have "reddit_posts (snd (savePost (formatPostData post_p1) seen_p1)) \<noteq> reddit_posts seen_p1"
    by (simp add: savePost_def getPostById_eq updatePost_eq seen_p1_posts seen_p1_rest
        touch_def new_row_def)
  then show ?thesis
    unfolding seen_p1_def .
qed

text \<open>
  C7. A store with at most one row per id keeps at most one row per id through every
  call of \<open>savePost\<close>, and through the item loop of a scrape, which calls \<open>savePost\<close>
  once per fetched item.  For an id not yet in the store the call throws exactly when
  the store rejects the lookup or the insert, and then leaves the table as it was;
  otherwise it appends one row, which holds the fields of the item, the upstream
  creation time in milliseconds as \<open>created_utc\<close> (\<open>NULL\<close> when that is outside the
  range of a date) and no \<open>last_updated_at\<close>.  For an id already in the store the call
  throws exactly when the store rejects the lookup or the update, and then leaves the
  table as it was; otherwise it writes \<open>score\<close>, \<open>num_comments\<close>, \<open>selftext\<close> and
  \<open>last_updated_at\<close> of the row of that id, and \<open>upvote_ratio\<close> unless the item has no
  such property, and nothing else.  Either way \<open>post_id\<close>, \<open>title\<close>, \<open>author\<close>,
  \<open>subreddit\<close>, \<open>permalink\<close>, \<open>url\<close> and \<open>created_utc\<close> of every row that was in the
  store stay what they were.
\<close>

theorem savePost_one_item_per_id:
  assumes "distinct (map post_id (reddit_posts w))" and "engine_sound w"
  shows "distinct (map post_id (reddit_posts (snd (savePost pd w)))) \<and>
    (pd_id pd \<notin> post_id ` set (reddit_posts w) \<longrightarrow>
       (isl (fst (savePost pd w)) \<longleftrightarrow>
          db_fault w (db_calls w) SelectPost \<noteq> None \<or>
          db_fault w (Suc (db_calls w)) InsertPost \<noteq> None) \<and>
       reddit_posts (snd (savePost pd w)) =
         (if isl (fst (savePost pd w)) then reddit_posts w
          else reddit_posts w @
            [\<lparr>post_id = pd_id pd,
              title = pd_title pd,
              author = pd_author pd,
              subreddit = pd_subreddit pd,
              score = pd_score pd,
              upvote_ratio = (case pd_upvote_ratio pd of
                                Missing \<Rightarrow> None
                              | Null \<Rightarrow> None
                              | Given v \<Rightarrow> Some v),
              url = pd_url pd,
              created_utc = (if \<bar>pd_created_utc pd * 1000\<bar> \<le> 8640000000000000
                             then Some (pd_created_utc pd * 1000) else None),
              num_comments = pd_num_comments pd,
              selftext = pd_selftext pd,
              permalink = pd_permalink pd,
              thumbnail = pd_thumbnail pd,
              is_video = pd_is_video pd,
              domain = pd_domain pd,
              link_flair_text = pd_link_flair_text pd,
              last_updated_at = None\<rparr>])) \<and>
    (pd_id pd \<in> post_id ` set (reddit_posts w) \<longrightarrow>
       (isl (fst (savePost pd w)) \<longleftrightarrow>
          db_fault w (db_calls w) SelectPost \<noteq> None \<or>
          db_fault w (Suc (db_calls w)) UpdatePost \<noteq> None) \<and>
       reddit_posts (snd (savePost pd w)) =
         (if isl (fst (savePost pd w)) then reddit_posts w
          else map (\<lambda>x. if post_id x = pd_id pd
                         then x\<lparr>score := pd_score pd,
                             num_comments := pd_num_comments pd,
                             upvote_ratio := (case pd_upvote_ratio pd of
                                                Missing \<Rightarrow> upvote_ratio x
                                              | Null \<Rightarrow> None
                                              | Given v \<Rightarrow> Some v),
                             selftext := pd_selftext pd,
                             last_updated_at := Some (clock w)\<rparr>
                         else x)
                 (reddit_posts w)) \<and>
       map (\<lambda>r. (post_id r, title r, author r, subreddit r, permalink r, url r, created_utc r))
         (reddit_posts (snd (savePost pd w))) =
       map (\<lambda>r. (post_id r, title r, author r, subreddit r, permalink r, url r, created_utc r))
         (reddit_posts w)) \<and>
    distinct (map post_id (reddit_posts (snd (save_loop children acc w))))"
proof (intro conjI impI)
  show "distinct (map post_id (reddit_posts (snd (savePost pd w))))"
    by (rule savePost_distinct [OF assms])
  show "distinct (map post_id (reddit_posts (snd (save_loop children acc w))))"
    by (rule save_loop_distinct [OF assms])
next
  assume unknown: "pd_id pd \<notin> post_id ` set (reddit_posts w)"
  show "isl (fst (savePost pd w)) \<longleftrightarrow>
          db_fault w (db_calls w) SelectPost \<noteq> None \<or>
          db_fault w (Suc (db_calls w)) InsertPost \<noteq> None"
    by (rule savePost_throws_unknown [OF assms(2) unknown])
  show "reddit_posts (snd (savePost pd w)) =
         (if isl (fst (savePost pd w)) then reddit_posts w
          else reddit_posts w @
            [\<lparr>post_id = pd_id pd,
              title = pd_title pd,
              author = pd_author pd,
              subreddit = pd_subreddit pd,
              score = pd_score pd,
              upvote_ratio = (case pd_upvote_ratio pd of
                                Missing \<Rightarrow> None
                              | Null \<Rightarrow> None
                              | Given v \<Rightarrow> Some v),
              url = pd_url pd,
              created_utc = (if \<bar>pd_created_utc pd * 1000\<bar> \<le> 8640000000000000
                             then Some (pd_created_utc pd * 1000) else None),
              num_comments = pd_num_comments pd,
              selftext = pd_selftext pd,
              permalink = pd_permalink pd,
              thumbnail = pd_thumbnail pd,
              is_video = pd_is_video pd,
              domain = pd_domain pd,
              link_flair_text = pd_link_flair_text pd,
              last_updated_at = None\<rparr>])"
    by (simp add: savePost_unknown_eq [OF assms(2) unknown] new_row_def js_date_def
        split: option.splits)
next
  assume known: "pd_id pd \<in> post_id ` set (reddit_posts w)"
  show "isl (fst (savePost pd w)) \<longleftrightarrow>
          db_fault w (db_calls w) SelectPost \<noteq> None \<or>
          db_fault w (Suc (db_calls w)) UpdatePost \<noteq> None"
    by (rule savePost_throws_known [OF assms known])
  show "reddit_posts (snd (savePost pd w)) =
         (if isl (fst (savePost pd w)) then reddit_posts w
          else map (\<lambda>x. if post_id x = pd_id pd
                         then x\<lparr>score := pd_score pd,
                             num_comments := pd_num_comments pd,
                             upvote_ratio := (case pd_upvote_ratio pd of
                                                Missing \<Rightarrow> upvote_ratio x
                                              | Null \<Rightarrow> None
                                              | Given v \<Rightarrow> Some v),
                             selftext := pd_selftext pd,
                             last_updated_at := Some (clock w)\<rparr>
                         else x)
                 (reddit_posts w))"
    by (simp add: savePost_known_eq [OF assms known] updatePost_skipped touch_def
        split: option.splits)
  have "map frozen (reddit_posts (snd (savePost pd w))) = map frozen (reddit_posts w)"
    by (simp add: savePost_known_eq [OF assms known] updatePost_skipped map_touch_frozen
        del: map_map split: option.splits)
  then show "map (\<lambda>r. (post_id r, title r, author r, subreddit r, permalink r, url r, created_utc r))
         (reddit_posts (snd (savePost pd w))) =
       map (\<lambda>r. (post_id r, title r, author r, subreddit r, permalink r, url r, created_utc r))
         (reddit_posts w)"
    by (simp only: frozen_literal)
qed

text \<open>
  On the store that holds \<open>p1\<close>, at time 0: \<open>p1\<close> seen again with score 15 and three
  comments, and \<open>p2\<close> seen for the first time.
\<close>

theorem savePost_one_item_per_id_witness:
  "distinct (map post_id (reddit_posts seen_p1)) \<and> engine_sound seen_p1 \<and>
   pd_id (formatPostData post_p1_later) \<in> post_id ` set (reddit_posts seen_p1) \<and>
   pd_id (formatPostData post_p2) \<notin> post_id ` set (reddit_posts seen_p1) \<and>
   reddit_posts seen_p1 =
     [\<lparr>post_id = ''p1'', title = ''Launch week'', author = ''alice'', subreddit = ''SaaS'',
       score = 10, upvote_ratio = Some 1, url = ''https://example.org'',
       created_utc = Some 1700000000000, num_comments = 2, selftext = ''hello'',
       permalink = ''/r/SaaS/p1'', thumbnail = None, is_video = False, domain = None,
       link_flair_text = None, last_updated_at = None\<rparr>] \<and>
   \<not> isl (fst (savePost (formatPostData post_p1_later) seen_p1)) \<and>
   reddit_posts (snd (savePost (formatPostData post_p1_later) seen_p1)) =
     [\<lparr>post_id = ''p1'', title = ''Launch week'', author = ''alice'', subreddit = ''SaaS'',
       score = 15, upvote_ratio = Some 1, url = ''https://example.org'',
       created_utc = Some 1700000000000, num_comments = 3, selftext = ''hello'',
       permalink = ''/r/SaaS/p1'', thumbnail = None, is_video = False, domain = None,
       link_flair_text = None, last_updated_at = Some 0\<rparr>] \<and>
   \<not> isl (fst (savePost (formatPostData post_p2) seen_p1)) \<and>
   reddit_posts (snd (savePost (formatPostData post_p2) seen_p1)) =
     [\<lparr>post_id = ''p1'', title = ''Launch week'', author = ''alice'', subreddit = ''SaaS'',
       score = 10, upvote_ratio = Some 1, url = ''https://example.org'',
       created_utc = Some 1700000000000, num_comments = 2, selftext = ''hello'',
       permalink = ''/r/SaaS/p1'', thumbnail = None, is_video = False, domain = None,
       link_flair_text = None, last_updated_at = None\<rparr>,
      \<lparr>post_id = ''p2'', title = ''Pricing page'', author = ''alice'', subreddit = ''SaaS'',
       score = 10, upvote_ratio = Some 1, url = ''https://example.org'',
       created_utc = Some 1700000000000, num_comments = 2, selftext = ''hello'',
       permalink = ''/r/SaaS/p2'', thumbnail = None, is_video = False, domain = None,
       link_flair_text = None, last_updated_at = None\<rparr>]"
proof -
  have inv: "distinct (map post_id (reddit_posts seen_p1))"
    by (simp add: seen_p1_posts)
  have known: "pd_id (formatPostData post_p1_later) \<in> post_id ` set (reddit_posts seen_p1)"
    and unknown: "pd_id (formatPostData post_p2) \<notin> post_id ` set (reddit_posts seen_p1)"
    by (simp_all add: seen_p1_posts formatPostData_def post_p1_later_def post_p2_def
        post_p1_def)
  have accepted: "db_fault seen_p1 (db_calls seen_p1) SelectPost = None"
    "db_fault seen_p1 (Suc (db_calls seen_p1)) UpdatePost = None"
    "db_fault seen_p1 (Suc (db_calls seen_p1)) InsertPost = None"
    by (simp_all add: seen_p1_rest)
  have rows: "reddit_posts seen_p1 =
     [\<lparr>post_id = ''p1'', title = ''Launch week'', author = ''alice'', subreddit = ''SaaS'',
       score = 10, upvote_ratio = Some 1, url = ''https://example.org'',
       created_utc = Some 1700000000000, num_comments = 2, selftext = ''hello'',
       permalink = ''/r/SaaS/p1'', thumbnail = None, is_video = False, domain = None,
       link_flair_text = None, last_updated_at = None\<rparr>]"
    by (simp add: seen_p1_posts new_row_def formatPostData_def post_p1_def js_date_def)
  have clock0: "clock seen_p1 = 0"
    by (simp add: seen_p1_rest world0_def)
  have later: "formatPostData post_p1_later =
      (formatPostData post_p1)\<lparr>pd_score := 15, pd_num_comments := 3\<rparr>"
    and p2: "formatPostData post_p2 =
      (formatPostData post_p1)\<lparr>pd_id := ''p2'', pd_title := ''Pricing page'',
         pd_permalink := ''/r/SaaS/p2''\<rparr>"
    by (simp_all add: formatPostData_def post_p1_later_def post_p2_def)
  have p1: "formatPostData post_p1 =
     \<lparr>pd_id = ''p1'', pd_title = ''Launch week'', pd_author = ''alice'',
      pd_subreddit = ''SaaS'', pd_score = 10, pd_upvote_ratio = Given 1,
      pd_url = ''https://example.org'', pd_created_utc = 1700000000,
      pd_num_comments = 2, pd_selftext = ''hello'', pd_permalink = ''/r/SaaS/p1'',
      pd_thumbnail = None, pd_is_video = False, pd_domain = None,
      pd_link_flair_text = None\<rparr>"
    by (simp add: formatPostData_def post_p1_def)
  have again: "\<not> isl (fst (savePost (formatPostData post_p1_later) seen_p1)) \<and>
      reddit_posts (snd (savePost (formatPostData post_p1_later) seen_p1)) =
     [\<lparr>post_id = ''p1'', title = ''Launch week'', author = ''alice'', subreddit = ''SaaS'',
       score = 15, upvote_ratio = Some 1, url = ''https://example.org'',
       created_utc = Some 1700000000000, num_comments = 3, selftext = ''hello'',
       permalink = ''/r/SaaS/p1'', thumbnail = None, is_video = False, domain = None,
       link_flair_text = None, last_updated_at = Some 0\<rparr>]"
    using savePost_one_item_per_id [OF inv seen_p1_sound, of "formatPostData post_p1_later"]
      known accepted
    by (simp add: rows clock0) (simp add: later p1)
  have fresh: "\<not> isl (fst (savePost (formatPostData post_p2) seen_p1)) \<and>
      reddit_posts (snd (savePost (formatPostData post_p2) seen_p1)) =
     [\<lparr>post_id = ''p1'', title = ''Launch week'', author = ''alice'', subreddit = ''SaaS'',
       score = 10, upvote_ratio = Some 1, url = ''https://example.org'',
       created_utc = Some 1700000000000, num_comments = 2, selftext = ''hello'',
       permalink = ''/r/SaaS/p1'', thumbnail = None, is_video = False, domain = None,
       link_flair_text = None, last_updated_at = None\<rparr>,
      \<lparr>post_id = ''p2'', title = ''Pricing page'', author = ''alice'', subreddit = ''SaaS'',
       score = 10, upvote_ratio = Some 1, url = ''https://example.org'',
       created_utc = Some 1700000000000, num_comments = 2, selftext = ''hello'',
       permalink = ''/r/SaaS/p2'', thumbnail = None, is_video = False, domain = None,
       link_flair_text = None, last_updated_at = None\<rparr>]"
    using savePost_one_item_per_id [OF inv seen_p1_sound, of "formatPostData post_p2"]
      unknown accepted
    by (simp add: rows) (simp add: p2 p1)
  show ?thesis
    using inv seen_p1_sound known unknown rows again fresh by blast
qed

text \<open>
  C8 (as amended). \<open>formatPostData\<close> replaces an author that is absent, \<open>null\<close> or
  empty by the literal \<open>deleted\<close>, an absent body text by the empty string and an
  absent \<open>is_video\<close> by \<open>false\<close>; values that are present pass through, and so does
  every author that is a non-empty string, the marker \<open>[deleted]\<close> that the feed puts
  in place of a deleted author included.
\<close>

theorem formatPostData_defaults:
  "(raw_author post = None \<or> raw_author post = Some [] \<longrightarrow>
      pd_author (formatPostData post) = ''deleted'') \<and>
   (raw_selftext post = None \<longrightarrow> pd_selftext (formatPostData post) = []) \<and>
   (raw_is_video post = None \<longrightarrow> pd_is_video (formatPostData post) = False) \<and>
   (\<forall>a. raw_author post = Some a \<and> a \<noteq> [] \<longrightarrow> pd_author (formatPostData post) = a) \<and>
   (\<forall>s. raw_selftext post = Some s \<longrightarrow> pd_selftext (formatPostData post) = s) \<and>
   (\<forall>b. raw_is_video post = Some b \<longrightarrow> pd_is_video (formatPostData post) = b)"
  by (simp add: formatPostData_def)

theorem formatPostData_defaults_witness:
  "raw_author post_bare = None \<and> raw_selftext post_bare = None \<and>
   raw_is_video post_bare = None \<and>
   pd_author (formatPostData post_bare) = ''deleted'' \<and>
   pd_selftext (formatPostData post_bare) = [] \<and>
   pd_is_video (formatPostData post_bare) = False"
  using formatPostData_defaults [of post_bare]
  by (simp add: post_bare_def)

text \<open>
  As stated, with a deleted author mapped to \<open>deleted\<close>, the claim fails: the author
  of an item whose author the feed gives as \<open>[deleted]\<close> is stored as \<open>[deleted]\<close>.
\<close>

theorem deleted_author_passes_through_counterexample:
  "raw_author post_deleted = Some ''[deleted]'' \<and>
   pd_author (formatPostData post_deleted) = ''[deleted]'' \<and>
   pd_author (formatPostData post_deleted) \<noteq> ''deleted''"
  by (simp add: formatPostData_def post_deleted_def)

text \<open>
  C9 (amended).  Every single-feed call (\<open>scrapeSubreddit\<close>, \<open>getTopPosts\<close>,
  \<open>getNewPosts\<close>, \<open>searchPosts\<close>) issues \<open>delay(1000)\<close> and then its one request, and
  nothing else.  In each of the four batch loops the events of a feed are that delay and
  request, followed by \<open>delay(2000)\<close> when the feed's scrape returned, and by nothing
  when it threw.
\<close>

theorem delays_of_scrapes_and_batches:
  "trace (snd (scrapeSubreddit n limit w)) = trace w @ [Delay 1000, HttpGet (Hot n limit)] \<and>
   trace (snd (getTopPosts n tf limit w)) = trace w @ [Delay 1000, HttpGet (Top n tf limit)] \<and>
   trace (snd (getNewPosts n limit w)) = trace w @ [Delay 1000, HttpGet (New n limit)] \<and>
   trace (snd (searchPosts n q limit w)) = trace w @ [Delay 1000, HttpGet (Search n q limit)] \<and>
   trace (snd (scrapeAllSubreddits w)) =
     trace w @ concat (map2 (\<lambda>sub out. feed_events (Hot sub 25) out) trackedSubreddits
                        (feed_outcomes (\<lambda>sub. scrapeSubreddit sub 25) trackedSubreddits w)) \<and>
   trace (scrapeAllSubredditsHourly w) =
     trace w @ concat (map2 (\<lambda>sub out. feed_events (Hot sub 25) out) trackedSubreddits
                        (feed_outcomes (\<lambda>sub. scrapeSubreddit sub 25) trackedSubreddits w)) \<and>
   trace (snd (scrapeTopPostsAllSubreddits tf w)) =
     trace w @ concat (map2 (\<lambda>sub out. feed_events (Top sub tf 50) out) trackedSubreddits
                        (feed_outcomes (\<lambda>sub. getTopPosts sub tf 50) trackedSubreddits w)) \<and>
   trace (scrapeTopPostsWeekly w) =
     trace w @ concat (map2 (\<lambda>sub out. feed_events (Top sub Week 50) out) trackedSubreddits
                        (feed_outcomes (\<lambda>sub. getTopPosts sub Week 50) trackedSubreddits w))"
  by (simp add: scrapeSubreddit_trace getTopPosts_trace getNewPosts_trace searchPosts_eq
      scrapeAllSubreddits_eq scrapeTopPostsAllSubreddits_eq hourly_trace top_loop_trace
      scrapeTopPostsWeekly_def)

text \<open>
  A batch whose first feed answers and whose other feeds fail: the only \<open>delay(2000)\<close>
  is the one after the first feed.
\<close>

theorem delays_of_scrapes_and_batches_witness:
  "trace (snd (scrapeAllSubreddits first_feed_up)) =
     [Delay 1000, HttpGet (Hot ''B2BSaas'' 25), Delay 2000,
      Delay 1000, HttpGet (Hot ''Business_Ideas'' 25),
      Delay 1000, HttpGet (Hot ''Entrepreneur'' 25),
      Delay 1000, HttpGet (Hot ''indiehackers'' 25),
      Delay 1000, HttpGet (Hot ''Saas'' 25),
      Delay 1000, HttpGet (Hot ''SaaSMarketing'' 25),
      Delay 1000, HttpGet (Hot ''SaaS'' 25),
      Delay 1000, HttpGet (Hot ''Startup_Ideas'' 25),
      Delay 1000, HttpGet (Hot ''microsaas'' 25)]"
proof -
  have start: "trace first_feed_up = []"
    by (simp add: first_feed_up_def world0_def)
  have "trace (snd (scrapeAllSubreddits first_feed_up)) =
     trace first_feed_up @
     concat (map2 (\<lambda>sub out. feed_events (Hot sub 25) out) trackedSubreddits
               (feed_outcomes (\<lambda>sub. scrapeSubreddit sub 25) trackedSubreddits first_feed_up))"
    using delays_of_scrapes_and_batches [of "''SaaS''" 25 first_feed_up Week "''q''"] by (elim conjE)
  then show ?thesis
    by (simp add: start trackedSubreddits_def first_feed_up_outcomes feed_events_def)
qed

text \<open>
  As stated, with a two-second delay between consecutive feeds also after a failed feed,
  the claim fails: when every feed fails, the batch issues no \<open>delay(2000)\<close> at all.
\<close>

theorem failed_feed_has_no_batch_delay_counterexample:
  "fst (scrapeSubreddit ''B2BSaas'' 25 world0) = Inl net_error \<and>
   trace (snd (scrapeAllSubreddits world0)) =
     [Delay 1000, HttpGet (Hot ''B2BSaas'' 25),
      Delay 1000, HttpGet (Hot ''Business_Ideas'' 25),
      Delay 1000, HttpGet (Hot ''Entrepreneur'' 25),
      Delay 1000, HttpGet (Hot ''indiehackers'' 25),
      Delay 1000, HttpGet (Hot ''Saas'' 25),
      Delay 1000, HttpGet (Hot ''SaaSMarketing'' 25),
      Delay 1000, HttpGet (Hot ''SaaS'' 25),
      Delay 1000, HttpGet (Hot ''Startup_Ideas'' 25),
      Delay 1000, HttpGet (Hot ''microsaas'' 25)]"
proof -
  have start: "trace world0 = []"
    by (simp add: world0_def)
  have first: "fst (scrapeSubreddit ''B2BSaas'' 25 world0) = Inl net_error"
    unfolding scrapeSubreddit_body
    by (subst unreachable_scrape) (simp_all add: world0_def)
  have "trace (snd (scrapeAllSubreddits world0)) =
     trace world0 @
     concat (map2 (\<lambda>sub out. feed_events (Hot sub 25) out) trackedSubreddits
               (map (\<lambda>sub. Inl net_error) trackedSubreddits))"
    by (simp only: scrapeAllSubreddits_eq snd_conv hourly_trace world0_outcomes)
  then show ?thesis
    by (simp add: start first trackedSubreddits_def feed_events_def)
qed

text \<open>
  C10. Every batch, manual or scheduled, requests exactly the nine hard-coded subreddits
  in their order of declaration, and the manual batches return nine entries in that
  order.  The statement holds for every world, hence for every content of table
  \<open>subreddits\<close>; the last two conjuncts say so for an arbitrary replacement \<open>cfg\<close> of
  that table.
\<close>

theorem batch_scrapes_the_hard_coded_feeds:
  "trackedSubreddits =
     [''B2BSaas'', ''Business_Ideas'', ''Entrepreneur'', ''indiehackers'', ''Saas'',
      ''SaaSMarketing'', ''SaaS'', ''Startup_Ideas'', ''microsaas''] \<and>
   length (results (fst (scrapeAllSubreddits w))) = 9 \<and>
   map res_subreddit (results (fst (scrapeAllSubreddits w))) = trackedSubreddits \<and>
   requests_of (trace (snd (scrapeAllSubreddits w))) =
     requests_of (trace w) @ map (\<lambda>sub. Hot sub 25) trackedSubreddits \<and>
   requests_of (trace (scrapeAllSubredditsHourly w)) =
     requests_of (trace w) @ map (\<lambda>sub. Hot sub 25) trackedSubreddits \<and>
   length (results (fst (scrapeTopPostsAllSubreddits tf w))) = 9 \<and>
   map res_subreddit (results (fst (scrapeTopPostsAllSubreddits tf w))) = trackedSubreddits \<and>
   requests_of (trace (snd (scrapeTopPostsAllSubreddits tf w))) =
     requests_of (trace w) @ map (\<lambda>sub. Top sub tf 50) trackedSubreddits \<and>
   requests_of (trace (scrapeTopPostsWeekly w)) =
     requests_of (trace w) @ map (\<lambda>sub. Top sub Week 50) trackedSubreddits \<and>
   map res_subreddit (results (fst (scrapeAllSubreddits (w\<lparr>subreddits := cfg\<rparr>)))) =
     map res_subreddit (results (fst (scrapeAllSubreddits w))) \<and>
   requests_of (trace (snd (scrapeAllSubreddits (w\<lparr>subreddits := cfg\<rparr>)))) =
     requests_of (trace (snd (scrapeAllSubreddits w)))"
proof -
  have names: "map res_subreddit (results (fst (scrapeAllSubreddits v))) = trackedSubreddits" for v
    using entry_names [of "\<lambda>sub. scrapeSubreddit sub 25" None trackedSubreddits v]
    by (simp add: scrapeAllSubreddits_eq scrapeSubreddit_name)
  have top_names:
    "map res_subreddit (results (fst (scrapeTopPostsAllSubreddits tf w))) = trackedSubreddits"
    using entry_names [of "\<lambda>sub. getTopPosts sub tf 50" "Some tf" trackedSubreddits w]
    by (simp add: scrapeTopPostsAllSubreddits_eq getTopPosts_name)
  have reqs: "requests_of (trace (snd (scrapeAllSubreddits v))) =
      requests_of (trace v) @ map (\<lambda>sub. Hot sub 25) trackedSubreddits"
    "requests_of (trace (scrapeAllSubredditsHourly v)) =
      requests_of (trace v) @ map (\<lambda>sub. Hot sub 25) trackedSubreddits" for v
    by (simp_all add: scrapeAllSubreddits_eq hourly_trace requests_of_feeds)
  have top_reqs: "requests_of (trace (snd (scrapeTopPostsAllSubreddits tf w))) =
      requests_of (trace w) @ map (\<lambda>sub. Top sub tf 50) trackedSubreddits"
    "requests_of (trace (scrapeTopPostsWeekly w)) =
      requests_of (trace w) @ map (\<lambda>sub. Top sub Week 50) trackedSubreddits"
    by (simp_all add: scrapeTopPostsAllSubreddits_eq scrapeTopPostsWeekly_def top_loop_trace
        requests_of_feeds)
  have len: "length (results (fst (scrapeAllSubreddits w))) = 9"
    "length (results (fst (scrapeTopPostsAllSubreddits tf w))) = 9"
    by (simp_all add: scrapeAllSubreddits_eq scrapeTopPostsAllSubreddits_eq length_tracked)
  have cfg: "trace (w\<lparr>subreddits := cfg\<rparr>) = trace w"
    by simp
  show ?thesis
    by (intro conjI)
       (simp_all only: trackedSubreddits_def [symmetric] names top_names reqs top_reqs len cfg)
qed

text \<open>A batch on a store whose table \<open>subreddits\<close> tracks \<open>webdev\<close> only.\<close>

theorem batch_scrapes_the_hard_coded_feeds_witness:
  "map sub_name (subreddits configured) = [''webdev''] \<and>
   map res_subreddit (results (fst (scrapeAllSubreddits configured))) =
     [''B2BSaas'', ''Business_Ideas'', ''Entrepreneur'', ''indiehackers'', ''Saas'',
      ''SaaSMarketing'', ''SaaS'', ''Startup_Ideas'', ''microsaas''] \<and>
   requests_of (trace (snd (scrapeAllSubreddits configured))) =
     [Hot ''B2BSaas'' 25, Hot ''Business_Ideas'' 25, Hot ''Entrepreneur'' 25,
      Hot ''indiehackers'' 25, Hot ''Saas'' 25, Hot ''SaaSMarketing'' 25, Hot ''SaaS'' 25,
      Hot ''Startup_Ideas'' 25, Hot ''microsaas'' 25]"
proof -
  have start: "trace configured = []" "map sub_name (subreddits configured) = [''webdev'']"
    by (simp_all add: configured_def world0_def)
  have names: "map res_subreddit (results (fst (scrapeAllSubreddits configured))) =
      trackedSubreddits"
    and reqs: "requests_of (trace (snd (scrapeAllSubreddits configured))) =
      requests_of (trace configured) @ map (\<lambda>sub. Hot sub 25) trackedSubreddits"
    using batch_scrapes_the_hard_coded_feeds [of configured Week "[]"] by blast+
  show ?thesis
    by (simp add: names reqs start trackedSubreddits_def)
qed

end
